theory Spec2Isabelle
  imports Main "HOL-Library.Word" "HOL-Library.Sublist"
begin

section \<open>Draft generation (src/services/generateDraft.ts)\<close>

text \<open>
  The service asks a chat-completion provider for a JSON summary of scraped text and
  renders it as a draft post. The embedding follows the body of \<open>generateDraft\<close>
  statement by statement. Everything the function obtains from outside itself is an
  explicit parameter, collected in the record \<open>runtime\<close>: the two environment
  variables, the text of the current date, the provider's answer to a request, and the
  result of the built-in \<open>JSON.parse\<close>. Console output does not influence the value
  returned and is left out.
\<close>

subsection \<open>Strings\<close>

text \<open>
  A JavaScript string is a sequence of UTF-16 code units. \<open>lit\<close> embeds an ASCII
  literal.
\<close>

type_synonym jsstring = "16 word list"

definition lit :: "string \<Rightarrow> jsstring" where
  "lit s = map of_char s"

text \<open>
  The characters matched by \<open>\s\<close> in a regular expression, which are also the ones
  removed by \<open>String.prototype.trim\<close>: WhiteSpace and LineTerminator of ECMAScript.
\<close>

definition isWhiteSpace :: "16 word \<Rightarrow> bool" where
  "isWhiteSpace c \<longleftrightarrow>
     c = 0x9 \<or> c = 0xA \<or> c = 0xB \<or> c = 0xC \<or> c = 0xD \<or> c = 0x20 \<or> c = 0xA0 \<or>
     c = 0x1680 \<or> (0x2000 \<le> c \<and> c \<le> 0x200A) \<or> c = 0x2028 \<or> c = 0x2029 \<or>
     c = 0x202F \<or> c = 0x205F \<or> c = 0x3000 \<or> c = 0xFEFF"

definition trim :: "jsstring \<Rightarrow> jsstring" where
  "trim s = rev (dropWhile isWhiteSpace (rev (dropWhile isWhiteSpace s)))"

text \<open>\<open>Array.prototype.join\<close> on an array of strings.\<close>

fun join :: "jsstring \<Rightarrow> jsstring list \<Rightarrow> jsstring" where
  "join sep [] = []"
| "join sep [x] = x"
| "join sep (x # y # zs) = x @ sep @ join sep (y # zs)"

subsection \<open>The sanitizer (lines 83 to 86)\<close>

definition fence :: jsstring where
  "fence = lit ''```''"

definition fence_json :: jsstring where
  "fence_json = lit ''```json''"

text \<open>
  \<open>.replace(/```json\s*/g, '')\<close>: the text is scanned from the left; wherever the
  seven characters of the marker begin, they and the whole run of whitespace after them
  are dropped, and the scan goes on behind the match. The pattern has the flag \<open>g\<close>
  and no anchor.
\<close>

function replace_fence_json :: "jsstring \<Rightarrow> jsstring" where
  "replace_fence_json [] = []"
| "replace_fence_json (c # cs) =
     (if prefix fence_json (c # cs)
      then replace_fence_json (dropWhile isWhiteSpace (drop 7 (c # cs)))
      else c # replace_fence_json cs)"
  by pat_completeness auto
termination
proof (relation "measure length")
  show "wf (measure length)" by simp
next
  fix c :: "16 word" and cs :: jsstring
  have "length (dropWhile isWhiteSpace (drop 7 (c # cs))) \<le> length (drop 7 (c # cs))"
    by (rule length_dropWhile_le)
  also have "\<dots> < length (c # cs)" by simp
  finally show "(dropWhile isWhiteSpace (drop 7 (c # cs)), c # cs) \<in> measure length"
    by simp
next
  fix c :: "16 word" and cs :: jsstring
  show "(cs, c # cs) \<in> measure length" by simp
qed

text \<open>
  \<open>.replace(/```\s*$/g, '')\<close>: \<open>$\<close> without the flag \<open>m\<close> is the end of the
  input, so the pattern matches at a position exactly when three backticks stand there
  and only whitespace follows up to the end. The leftmost such position is taken and
  everything from it on is dropped.
\<close>

definition fence_to_end :: "jsstring \<Rightarrow> bool" where
  "fence_to_end s \<longleftrightarrow> prefix fence s \<and> list_all isWhiteSpace (drop 3 s)"

fun replace_trailing_fence :: "jsstring \<Rightarrow> jsstring" where
  "replace_trailing_fence [] = []"
| "replace_trailing_fence (c # cs) =
     (if fence_to_end (c # cs) then [] else c # replace_trailing_fence cs)"

definition cleanJSON :: "jsstring \<Rightarrow> jsstring" where
  "cleanJSON rawJSON = trim (replace_trailing_fence (replace_fence_json rawJSON))"

subsection \<open>Values read from the parsed response\<close>

text \<open>
  The result of \<open>JSON.parse\<close> is null, a boolean, a number, a string, an array or an
  object whose prototype is \<open>Object.prototype\<close>. An object is given by its own
  properties, looked up with \<open>map_of\<close>. A number is represented by the text
  \<open>Number.prototype.toString\<close> gives for it (\<open>JSON.parse\<close> never yields NaN, and
  both zeros print as \<open>0\<close>), which is all the function observes of a number.
\<close>

datatype json =
    JNull
  | JBool bool
  | JNum jsstring
  | JStr jsstring
  | JArr "json list"
  | JObj "(jsstring \<times> json) list"

datatype jsval = Undefined | Val json | String_prototype_link

datatype js_error = Error jsstring | TypeError | SyntaxError | APIError

text \<open>
  A property read \<open>v.k\<close>, for the six names the function reads this way:
  \<open>interestingTweetsOrStories\<close>, \<open>stories\<close>, \<open>description\<close>, \<open>headline\<close>,
  \<open>story_or_tweet_link\<close> and \<open>link\<close>. Reading a property of null throws a
  TypeError. An object yields its own property or undefined, since \<open>Object.prototype\<close>
  has none of the six names; nor have the prototypes of arrays, numbers and booleans.
  A string inherits \<open>link\<close> from \<open>String.prototype\<close>.
\<close>

fun get_prop :: "json \<Rightarrow> jsstring \<Rightarrow> js_error + jsval" where
  "get_prop JNull k = Inl TypeError"
| "get_prop (JObj kvs) k = Inr (case map_of kvs k of None \<Rightarrow> Undefined | Some v \<Rightarrow> Val v)"
| "get_prop (JStr s) k = Inr (if k = lit ''link'' then String_prototype_link else Undefined)"
| "get_prop (JBool b) k = Inr Undefined"
| "get_prop (JNum n) k = Inr Undefined"
| "get_prop (JArr xs) k = Inr Undefined"

text \<open>ToBoolean.\<close>

fun truthy :: "jsval \<Rightarrow> bool" where
  "truthy Undefined = False"
| "truthy String_prototype_link = True"
| "truthy (Val JNull) = False"
| "truthy (Val (JBool b)) = b"
| "truthy (Val (JNum n)) = (n \<noteq> lit ''0'')"
| "truthy (Val (JStr s)) = (s \<noteq> [])"
| "truthy (Val (JArr xs)) = True"
| "truthy (Val (JObj kvs)) = True"

text \<open>\<open>a || b\<close>: the right operand is evaluated only when the left one is falsy.\<close>

definition js_or :: "js_error + jsval \<Rightarrow> js_error + jsval \<Rightarrow> js_error + jsval" where
  "js_or a b = (case a of Inl e \<Rightarrow> Inl e | Inr v \<Rightarrow> if truthy v then Inr v else b)"

text \<open>
  ToString, as applied by a template literal. An array prints its elements separated by
  commas, null elements as the empty string. An object prints as \<open>[object Object]\<close>
  through \<open>Object.prototype.toString\<close>, unless it has an own property \<open>toString\<close>:
  a parsed value is never callable, and \<open>valueOf\<close> then yields no primitive, so the
  conversion throws a TypeError.
\<close>

fun json_toString :: "json \<Rightarrow> js_error + jsstring"
  and join_elements :: "json list \<Rightarrow> js_error + jsstring" where
  "json_toString JNull = Inr (lit ''null'')"
| "json_toString (JBool b) = Inr (if b then lit ''true'' else lit ''false'')"
| "json_toString (JNum n) = Inr n"
| "json_toString (JStr s) = Inr s"
| "json_toString (JArr xs) = join_elements xs"
| "json_toString (JObj kvs) =
     (if map_of kvs (lit ''toString'') = None then Inr (lit ''[object Object]'')
      else Inl TypeError)"
| "join_elements [] = Inr []"
| "join_elements [x] = (if x = JNull then Inr [] else json_toString x)"
| "join_elements (x # y # zs) =
     (case (if x = JNull then Inr [] else json_toString x) of
        Inl e \<Rightarrow> Inl e
      | Inr a \<Rightarrow> (case join_elements (y # zs) of
                   Inl e \<Rightarrow> Inl e
                 | Inr b \<Rightarrow> Inr (a @ lit '','' @ b)))"

fun ToString :: "jsval \<Rightarrow> js_error + jsstring" where
  "ToString Undefined = Inr (lit ''undefined'')"
| "ToString String_prototype_link = Inr (lit ''function link() { [native code] }'')"
| "ToString (Val v) = json_toString v"

subsection \<open>The provider\<close>

datatype role = System | User

record message =
  role :: role
  content :: jsstring

record request =
  baseURL :: jsstring
  apiKey :: jsstring
  model :: jsstring
  messages :: "message list"

text \<open>A completion is the list of its choices, each given by \<open>message.content\<close>.\<close>

type_synonym completion = "jsstring option list"

record runtime =
  OPENAI_API_KEY :: "jsstring option"
  DEEPSEEK_API_KEY :: "jsstring option"
  toLocaleDateString :: jsstring
  chat_completions_create :: "request \<Rightarrow> js_error + completion"
  JSON_parse :: "jsstring \<Rightarrow> js_error + json"

text \<open>\<open>!!process.env.X\<close>: the variable is set and not the empty string.\<close>

definition present :: "jsstring option \<Rightarrow> bool" where
  "present v = (case v of None \<Rightarrow> False | Some s \<Rightarrow> s \<noteq> [])"

definition useOpenAI :: "runtime \<Rightarrow> bool" where
  "useOpenAI rt = present (OPENAI_API_KEY rt)"

definition useDeepseek :: "runtime \<Rightarrow> bool" where
  "useDeepseek rt = (present (DEEPSEEK_API_KEY rt) \<and> \<not> useOpenAI rt)"

definition header :: "runtime \<Rightarrow> jsstring" where
  "header rt =
     [0xD83D, 0xDE80] @ lit '' AI and LLM Trends on X for '' @ toLocaleDateString rt @
     [0xA, 0xA]"

definition system_prompt :: jsstring where
  "system_prompt =
     lit ''You are a helpful assistant that creates a concise, bullet-pointed draft post based on input stories and tweets. '' @
     lit ''Return strictly valid JSON that has a key 'interestingTweetsOrStories' containing an array of items. '' @
     lit ''Each item should have a 'description' and a 'story_or_tweet_link' key.''"

definition messages_for :: "jsstring \<Rightarrow> message list" where
  "messages_for rawStories =
     [\<lparr>role = System, content = system_prompt\<rparr>, \<lparr>role = User, content = rawStories\<rparr>]"

text \<open>
  The two clients and their requests. Each is built only in the branch where its key
  is set.
\<close>

definition openai_request :: "runtime \<Rightarrow> jsstring \<Rightarrow> request" where
  "openai_request rt rawStories =
     \<lparr>baseURL = lit ''https://api.openai.com'',
      apiKey = (case OPENAI_API_KEY rt of None \<Rightarrow> [] | Some k \<Rightarrow> k),
      model = lit ''gpt-3.5-turbo'',
      messages = messages_for rawStories\<rparr>"

definition deepseek_request :: "runtime \<Rightarrow> jsstring \<Rightarrow> request" where
  "deepseek_request rt rawStories =
     \<lparr>baseURL = lit ''https://api.deepseek.com'',
      apiKey = (case DEEPSEEK_API_KEY rt of None \<Rightarrow> [] | Some k \<Rightarrow> k),
      model = lit ''deepseek-chat'',
      messages = messages_for rawStories\<rparr>"

text \<open>
  Lines 19 to 25 and the two branches of lines 44 to 74: the request that is sent.
  Without a key an \<open>Error\<close> is thrown before anything is sent.
\<close>

definition no_keys_message :: jsstring where
  "no_keys_message =
     lit ''No API keys found. Please provide either OPENAI_API_KEY or DEEPSEEK_API_KEY in your .env file.''"

definition select_request :: "runtime \<Rightarrow> jsstring \<Rightarrow> js_error + request" where
  "select_request rt rawStories =
     (if \<not> useOpenAI rt \<and> \<not> useDeepseek rt then Inl (Error no_keys_message)
      else if useOpenAI rt then Inr (openai_request rt rawStories)
      else Inr (deepseek_request rt rawStories))"

text \<open>
  \<open>completion.choices[0].message.content\<close>: with no choice at all, \<open>choices[0]\<close> is
  undefined and reading \<open>message\<close> from it throws.
\<close>

definition first_content :: "completion \<Rightarrow> js_error + jsstring option" where
  "first_content choices = (case choices of [] \<Rightarrow> Inl TypeError | c # _ \<Rightarrow> Inr c)"

subsection \<open>Formatting (lines 90 to 109)\<close>

definition contentArray :: "json \<Rightarrow> js_error + jsval" where
  "contentArray parsedResponse =
     js_or (js_or (get_prop parsedResponse (lit ''interestingTweetsOrStories''))
                  (get_prop parsedResponse (lit ''stories'')))
           (Inr (Val (JArr [])))"

text \<open>
  \<open>contentArray.length === 0\<close>. An array and a string have their length; an object has
  the own property \<open>length\<close> or none; a number and a boolean have none. Anything but
  the number zero is unequal to \<open>0\<close>.
\<close>

fun length_is_zero :: "jsval \<Rightarrow> js_error + bool" where
  "length_is_zero Undefined = Inl TypeError"
| "length_is_zero (Val JNull) = Inl TypeError"
| "length_is_zero String_prototype_link = Inr False"
| "length_is_zero (Val (JArr xs)) = Inr (xs = [])"
| "length_is_zero (Val (JStr s)) = Inr (s = [])"
| "length_is_zero (Val (JObj kvs)) = Inr (map_of kvs (lit ''length'') = Some (JNum (lit ''0'')))"
| "length_is_zero (Val (JBool b)) = Inr False"
| "length_is_zero (Val (JNum n)) = Inr False"

text \<open>
  The two interpolations of the template literal, and the block built for one item.
\<close>

definition item_description :: "json \<Rightarrow> js_error + jsstring" where
  "item_description item =
     (case js_or (get_prop item (lit ''description'')) (get_prop item (lit ''headline'')) of
        Inl e \<Rightarrow> Inl e
      | Inr v \<Rightarrow> ToString v)"

definition item_link :: "json \<Rightarrow> js_error + jsstring" where
  "item_link item =
     (case js_or (get_prop item (lit ''story_or_tweet_link'')) (get_prop item (lit ''link'')) of
        Inl e \<Rightarrow> Inl e
      | Inr v \<Rightarrow> ToString v)"

definition bullet :: "16 word" where
  "bullet = 0x2022"

definition block :: "jsstring \<Rightarrow> jsstring \<Rightarrow> jsstring" where
  "block d l = [bullet, 0x20] @ d @ [0xA, 0x20, 0x20] @ l"

definition render_item :: "json \<Rightarrow> js_error + jsstring" where
  "render_item item =
     (case item_description item of
        Inl e \<Rightarrow> Inl e
      | Inr d \<Rightarrow> (case item_link item of
                   Inl e \<Rightarrow> Inl e
                 | Inr l \<Rightarrow> Inr (block d l)))"

text \<open>
  \<open>contentArray.map(...)\<close>: the callback runs on the items from left to right, and an
  exception in one of them ends the call.
\<close>

fun map_items :: "json list \<Rightarrow> js_error + jsstring list" where
  "map_items [] = Inr []"
| "map_items (item # items) =
     (case render_item item of
        Inl e \<Rightarrow> Inl e
      | Inr b \<Rightarrow> (case map_items items of
                   Inl e \<Rightarrow> Inl e
                 | Inr bs \<Rightarrow> Inr (b # bs)))"

text \<open>Only an array has a callable \<open>map\<close>.\<close>

fun array_map :: "jsval \<Rightarrow> js_error + jsstring list" where
  "array_map (Val (JArr items)) = map_items items"
| "array_map v = Inl TypeError"

definition no_items_sentence :: jsstring where
  "no_items_sentence = lit ''No trending stories or tweets found at this time.''"

definition format_response :: "runtime \<Rightarrow> json \<Rightarrow> js_error + jsstring" where
  "format_response rt parsedResponse =
     (case contentArray parsedResponse of
        Inl e \<Rightarrow> Inl e
      | Inr arr \<Rightarrow>
          (case length_is_zero arr of
             Inl e \<Rightarrow> Inl e
           | Inr True \<Rightarrow> Inr (header rt @ no_items_sentence)
           | Inr False \<Rightarrow>
               (case array_map arr of
                  Inl e \<Rightarrow> Inl e
                | Inr blocks \<Rightarrow> Inr (header rt @ join [0xA, 0xA] blocks))))"

subsection \<open>generateDraft\<close>

text \<open>
  Lines 19 to 74: the requests sent to a provider, in order, and the value of
  \<open>rawJSON\<close> or the exception thrown on the way.
\<close>

definition request_rawJSON ::
  "runtime \<Rightarrow> jsstring \<Rightarrow> request list \<times> (js_error + jsstring option)" where
  "request_rawJSON rt rawStories =
     (case select_request rt rawStories of
        Inl e \<Rightarrow> ([], Inl e)
      | Inr req \<Rightarrow>
          ([req],
           case chat_completions_create rt req of
             Inl e \<Rightarrow> Inl e
           | Inr completion \<Rightarrow> first_content completion))"

definition requests_sent :: "runtime \<Rightarrow> jsstring \<Rightarrow> request list" where
  "requests_sent rt rawStories = fst (request_rawJSON rt rawStories)"

text \<open>
  Lines 76 to 109: what is done with the content of the first choice. \<open>!rawJSON\<close>
  holds for null and for the empty string.
\<close>

definition from_content :: "runtime \<Rightarrow> jsstring option \<Rightarrow> js_error + jsstring" where
  "from_content rt rawJSON =
     (case rawJSON of
        None \<Rightarrow> Inr (header rt @ lit ''No output.'')
      | Some s \<Rightarrow>
          if s = [] then Inr (header rt @ lit ''No output.'')
          else (case JSON_parse rt (cleanJSON s) of
                  Inl e \<Rightarrow> Inl e
                | Inr parsedResponse \<Rightarrow> format_response rt parsedResponse))"

text \<open>The body of the \<open>try\<close> block: a string is returned or an exception leaves it.\<close>

definition try_block :: "runtime \<Rightarrow> jsstring \<Rightarrow> js_error + jsstring" where
  "try_block rt rawStories =
     (case snd (request_rawJSON rt rawStories) of
        Inl e \<Rightarrow> Inl e
      | Inr rawJSON \<Rightarrow> from_content rt rawJSON)"

definition error_string :: jsstring where
  "error_string = lit ''Error generating draft post.''"

text \<open>The \<open>catch\<close> clause turns every exception into the same string.\<close>

definition generateDraft :: "runtime \<Rightarrow> jsstring \<Rightarrow> jsstring" where
  "generateDraft rt rawStories =
     (case try_block rt rawStories of Inl e \<Rightarrow> error_string | Inr draft \<Rightarrow> draft)"

subsection \<open>Example runtimes and responses\<close>

text \<open>
  The examples fix what the surroundings answer. \<open>parse_table\<close> stands for
  \<open>JSON.parse\<close> on the texts listed in the table, each paired with the value the
  text denotes; the examples apply it to no other text that is valid JSON.
  \<open>openai_answers c tbl\<close> is a runtime with the OpenAI key set, in which the
  provider's first choice has the content \<open>c\<close>. In \<open>both_keys\<close> both keys are set,
  the OpenAI endpoint returns a choice without content and every other endpoint fails.
\<close>

definition parse_table :: "(jsstring \<times> json) list \<Rightarrow> jsstring \<Rightarrow> js_error + json" where
  "parse_table tbl s = (case map_of tbl s of None \<Rightarrow> Inl SyntaxError | Some v \<Rightarrow> Inr v)"

definition openai_answers :: "jsstring option \<Rightarrow> (jsstring \<times> json) list \<Rightarrow> runtime" where
  "openai_answers c tbl =
     \<lparr>OPENAI_API_KEY = Some (lit ''sk-1''), DEEPSEEK_API_KEY = None,
      toLocaleDateString = lit ''11/3/2026'',
      chat_completions_create = (\<lambda>req. Inr [c]),
      JSON_parse = parse_table tbl\<rparr>"

definition both_keys :: runtime where
  "both_keys =
     \<lparr>OPENAI_API_KEY = Some (lit ''sk-1''), DEEPSEEK_API_KEY = Some (lit ''ds-2''),
      toLocaleDateString = lit ''11/3/2026'',
      chat_completions_create =
        (\<lambda>req. if baseURL req = lit ''https://api.openai.com'' then Inr [None] else Inl APIError),
      JSON_parse = parse_table []\<rparr>"

text \<open>The answers of the provider used in the examples, with the values they denote.\<close>

definition two_items_text :: jsstring where
  "two_items_text = lit ''{\"interestingTweetsOrStories\":[{\"description\":\"B\",\"story_or_tweet_link\":\"http://y\"},{\"description\":\"C\",\"story_or_tweet_link\":\"http://z\"}]}''"

definition two_items :: json where
  "two_items =
     JObj [(lit ''interestingTweetsOrStories'',
            JArr [JObj [(lit ''description'', JStr (lit ''B'')),
                        (lit ''story_or_tweet_link'', JStr (lit ''http://y''))],
                  JObj [(lit ''description'', JStr (lit ''C'')),
                        (lit ''story_or_tweet_link'', JStr (lit ''http://z''))]])]"



definition empty_text :: jsstring where
  "empty_text = lit ''{\"interestingTweetsOrStories\":[]}''"

definition empty_response :: json where
  "empty_response = JObj [(lit ''interestingTweetsOrStories'', JArr [])]"

definition fenced_empty_text :: jsstring where
  "fenced_empty_text = lit ''```json'' @ [0xA] @ empty_text @ [0xA] @ lit ''```''"

definition truncated_text :: jsstring where
  "truncated_text = lit ''{\"interestingTweetsOrStories\":[''"

definition shadowed_text :: jsstring where
  "shadowed_text = lit ''{\"interestingTweetsOrStories\":[],\"stories\":[{\"headline\":\"A\",\"link\":\"http://x\"}]}''"

definition shadowed_response :: json where
  "shadowed_response =
     JObj [(lit ''interestingTweetsOrStories'', JArr []),
           (lit ''stories'',
            JArr [JObj [(lit ''headline'', JStr (lit ''A'')), (lit ''link'', JStr (lit ''http://x''))]])]"

definition three_items_text :: jsstring where
  "three_items_text = lit ''{\"stories\":[{\"headline\":\"A\",\"link\":\"http://x\"},{\"description\":\"B\",\"story_or_tweet_link\":\"http://y\"},{\"description\":\"C\",\"story_or_tweet_link\":\"http://z\"}]}''"

definition three_items :: json where
  "three_items =
     JObj [(lit ''stories'',
            JArr [JObj [(lit ''headline'', JStr (lit ''A'')), (lit ''link'', JStr (lit ''http://x''))],
                  JObj [(lit ''description'', JStr (lit ''B'')),
                        (lit ''story_or_tweet_link'', JStr (lit ''http://y''))],
                  JObj [(lit ''description'', JStr (lit ''C'')),
                        (lit ''story_or_tweet_link'', JStr (lit ''http://z''))]])]"

definition null_item_text :: jsstring where
  "null_item_text = lit ''{\"stories\":[null]}''"

definition null_item_response :: json where
  "null_item_response = JObj [(lit ''stories'', JArr [JNull])]"



section \<open>Auxiliary facts\<close>

subsection \<open>Literals and whitespace\<close>

lemma inj_of_char_word: "inj (of_char :: char \<Rightarrow> 16 word)"
proof (rule injI)
  fix a b :: char
  assume "(of_char a :: 16 word) = of_char b"
  then have "(of_nat (of_char a) :: 16 word) = of_nat (of_char b)"
    by (simp only: of_nat_of_char)
  then have "unat (of_nat (of_char a) :: 16 word) = unat (of_nat (of_char b) :: 16 word)"
    by simp
  then have "(of_char a :: nat) mod 65536 = of_char b mod 65536"
    by (simp add: unat_of_nat)
  moreover have "(of_char a :: nat) < 65536"
    using nat_of_char_less_256 [of a] by linarith
  moreover have "(of_char b :: nat) < 65536"
    using nat_of_char_less_256 [of b] by linarith
  ultimately have "(of_char a :: nat) = of_char b" by simp
  then show "a = b" by simp
qed

lemma lit_eq_iff [simp]: "lit a = lit b \<longleftrightarrow> a = b"
  by (simp add: lit_def inj_map_eq_map [OF inj_of_char_word])

lemma lit_eq_Nil [simp]: "lit a = [] \<longleftrightarrow> a = []"
  by (simp add: lit_def)

lemma fence_json_eq: "fence_json = [0x60, 0x60, 0x60, 0x6A, 0x73, 0x6F, 0x6E]"
  by (simp add: fence_json_def lit_def)

lemma fence_eq: "fence = [0x60, 0x60, 0x60]"
  by (simp add: fence_def lit_def)

lemma backtick_not_ws: "\<not> isWhiteSpace 0x60"
  by (simp add: isWhiteSpace_def)

lemma letter_n_not_ws: "\<not> isWhiteSpace 0x6E"
  by (simp add: isWhiteSpace_def)

lemma all_ws_no_backtick: "list_all isWhiteSpace w \<Longrightarrow> 0x60 \<notin> set w"
  using backtick_not_ws by (auto simp: list_all_iff)

lemma all_ws_no_n: "list_all isWhiteSpace w \<Longrightarrow> 0x6E \<notin> set w"
  using letter_n_not_ws by (auto simp: list_all_iff)

lemma dropWhile_all_ws: "list_all isWhiteSpace w \<Longrightarrow> dropWhile isWhiteSpace (w @ s) = dropWhile isWhiteSpace s"
  by (simp add: list_all_iff dropWhile_append2)

subsection \<open>Trimming\<close>

lemma trim_all_ws:
  assumes "list_all isWhiteSpace w"
  shows "trim w = []"
proof -
  have e: "dropWhile isWhiteSpace w = []"
    using assms by (simp add: list_all_iff)
  show ?thesis unfolding trim_def e by simp
qed

lemma trim_ws_left: "list_all isWhiteSpace w \<Longrightarrow> trim (w @ s) = trim s"
  by (simp add: trim_def dropWhile_all_ws)

lemma trim_ws_right:
  assumes "list_all isWhiteSpace w"
  shows "trim (s @ w) = trim s"
proof (cases "list_all isWhiteSpace s")
  case True
  then have "list_all isWhiteSpace (s @ w)" using assms by simp
  then show ?thesis using True by (simp only: trim_all_ws)
next
  case False
  then obtain x where "x \<in> set s" "\<not> isWhiteSpace x" by (auto simp: list_all_iff)
  then have "dropWhile isWhiteSpace (s @ w) = dropWhile isWhiteSpace s @ w"
    by (rule dropWhile_append1)
  moreover have "dropWhile isWhiteSpace (rev w @ rev (dropWhile isWhiteSpace s))
      = dropWhile isWhiteSpace (rev (dropWhile isWhiteSpace s))"
    using assms by (intro dropWhile_all_ws) simp
  ultimately show ?thesis by (simp add: trim_def)
qed

lemma trim_dropWhile: "trim (dropWhile isWhiteSpace s) = trim s"
  by (simp add: trim_def dropWhile_idem)

lemma trim_id:
  assumes "\<not> isWhiteSpace (hd s)" and "\<not> isWhiteSpace (last s)"
  shows "trim s = s"
proof -
  have "dropWhile isWhiteSpace s = s"
    using assms(1) by (simp add: dropWhile_eq_self_iff)
  moreover have "dropWhile isWhiteSpace (rev s) = rev s"
    using assms(2) by (simp add: dropWhile_eq_self_iff hd_rev)
  ultimately show ?thesis by (simp add: trim_def)
qed

lemma trim_core:
  assumes "list_all isWhiteSpace w" and "list_all isWhiteSpace w'"
    and "body = [] \<or> \<not> isWhiteSpace (hd body) \<and> \<not> isWhiteSpace (last body)"
  shows "trim (w @ body @ w') = body"
proof -
  have "trim (w @ body @ w') = trim (body @ w')" using assms(1) by (rule trim_ws_left)
  also have "\<dots> = trim body" using assms(2) by (rule trim_ws_right)
  also have "\<dots> = body"
  proof (cases "body = []")
    case True
    then show ?thesis by (simp add: trim_def)
  next
    case False
    then show ?thesis using assms(3) by (simp add: trim_id)
  qed
  finally show ?thesis .
qed

subsection \<open>Removing the marker\<close>

lemma replace_fence_json_id: "\<not> sublist fence_json s \<Longrightarrow> replace_fence_json s = s"
proof (induction s)
  case Nil
  then show ?case by simp
next
  case (Cons c cs)
  have "\<not> prefix fence_json (c # cs)"
    using Cons.prems prefix_imp_sublist by blast
  moreover have "\<not> sublist fence_json cs"
    using Cons.prems by (simp add: sublist_Cons_right)
  ultimately show ?case using Cons.IH by simp
qed

lemma replace_fence_json_skip: "0x60 \<notin> set u \<Longrightarrow> replace_fence_json (u @ s) = u @ replace_fence_json s"
proof (induction u)
  case Nil
  then show ?case by simp
next
  case (Cons c u)
  then have "c \<noteq> 0x60" by auto
  then have "\<not> prefix fence_json (c # u @ s)" by (simp add: fence_json_eq)
  then show ?case using Cons by simp
qed

lemma replace_fence_json_marker:
  assumes "list_all isWhiteSpace w"
  shows "replace_fence_json (fence_json @ w @ s) = replace_fence_json (dropWhile isWhiteSpace s)"
proof -
  have "fence_json @ w @ s = 0x60 # ([0x60, 0x60, 0x6A, 0x73, 0x6F, 0x6E] @ w @ s)"
    by (simp add: fence_json_eq)
  moreover have "prefix fence_json (0x60 # ([0x60, 0x60, 0x6A, 0x73, 0x6F, 0x6E] @ w @ s))"
    by (simp add: fence_json_eq)
  moreover have "drop 7 (0x60 # ([0x60, 0x60, 0x6A, 0x73, 0x6F, 0x6E] @ w @ s)) = w @ s"
    by simp
  ultimately show ?thesis
    using assms by (simp only: replace_fence_json.simps if_True dropWhile_all_ws)
qed

text \<open>The marker does not overlap itself, so the first marker of a text is where the scan finds it.\<close>

lemma prefix_Cons_append:
  "prefix (a # as) (x @ ys) \<longleftrightarrow>
     (x = [] \<and> prefix (a # as) ys) \<or> (\<exists>x'. x = a # x' \<and> prefix as (x' @ ys))"
  by (cases x) auto

lemma marker_no_overlap:
  assumes "x \<noteq> []" and "prefix fence_json (x @ fence_json @ t)"
  shows "prefix fence_json x"
  using assms unfolding fence_json_eq
  by (auto simp: prefix_Cons_append)

lemma no_marker_before:
  assumes "\<not> sublist fence_json u"
  shows "replace_fence_json (u @ fence_json @ t) = u @ replace_fence_json (dropWhile isWhiteSpace t)"
  using assms
proof (induction u)
  case Nil
  show ?case using replace_fence_json_marker [of "[]" t] by simp
next
  case (Cons c u)
  have np: "\<not> prefix fence_json (c # (u @ fence_json @ t))"
  proof
    assume "prefix fence_json (c # (u @ fence_json @ t))"
    then have "prefix fence_json ((c # u) @ fence_json @ t)" by simp
    then have "prefix fence_json (c # u)"
      using marker_no_overlap [of "c # u" t] by blast
    then have "sublist fence_json (c # u)" by (rule prefix_imp_sublist)
    then show False using Cons.prems by blast
  qed
  have "\<not> sublist fence_json u"
    using Cons.prems by (simp add: sublist_Cons_right)
  then have ih: "replace_fence_json (u @ fence_json @ t) =
      u @ replace_fence_json (dropWhile isWhiteSpace t)"
    by (rule Cons.IH)
  have "replace_fence_json (c # (u @ fence_json @ t)) = c # replace_fence_json (u @ fence_json @ t)"
    using np by (simp only: replace_fence_json.simps if_False)
  then show ?case by (simp only: ih append_Cons)
qed

lemma no_j_no_marker: "0x6A \<notin> set s \<Longrightarrow> \<not> sublist fence_json s"
proof
  assume a: "0x6A \<notin> set s" and b: "sublist fence_json s"
  from b have "set fence_json \<subseteq> set s" by (rule set_mono_sublist)
  then show False using a by (simp add: fence_json_eq)
qed

lemma no_backtick_no_marker: "0x60 \<notin> set s \<Longrightarrow> \<not> sublist fence_json s"
proof
  assume a: "0x60 \<notin> set s" and b: "sublist fence_json s"
  from b have "set fence_json \<subseteq> set s" by (rule set_mono_sublist)
  then show False using a by (simp add: fence_json_eq)
qed

lemma sublist_append_cut:
  assumes "sublist xs (ys @ zs)" and "xs \<noteq> []" and "last xs \<notin> set zs"
  shows "sublist xs ys"
proof -
  from assms(1) obtain ps ss where eq: "ys @ zs = (ps @ xs) @ ss"
    by (auto simp: sublist_def)
  then consider us where "ys = (ps @ xs) @ us" | us where "ys @ us = ps @ xs" "zs = us @ ss"
    unfolding append_eq_append_conv2 [of ys zs "ps @ xs" ss] by blast
  then show ?thesis
  proof cases
    case 1
    then show ?thesis by (auto simp: sublist_def)
  next
    case 2
    show ?thesis
    proof (cases "us = []")
      case True
      then have "ys = ps @ xs" using 2(1) by simp
      then show ?thesis by simp
    next
      case False
      then have "last (ys @ us) = last us" by simp
      moreover have "last (ps @ xs) = last xs" using assms(2) by simp
      ultimately have "last xs = last us" using 2(1) by simp
      then have "last xs \<in> set zs" using False 2(2) by simp
      then show ?thesis using assms(3) by blast
    qed
  qed
qed

subsection \<open>Removing the final fence\<close>

text \<open>
  At most one position of a text is followed by three backticks and then only
  whitespace: a second one would put a backtick among that whitespace.
\<close>

lemma fence_to_end_fence: "list_all isWhiteSpace w \<Longrightarrow> fence_to_end (fence @ w)"
  by (simp add: fence_to_end_def fence_eq)

lemma not_fence_to_end_before:
  assumes "list_all isWhiteSpace w"
  shows "\<not> fence_to_end (c # t @ fence @ w)"
proof
  assume "fence_to_end (c # t @ fence @ w)"
  then have a: "list_all isWhiteSpace (drop 3 (c # t @ fence @ w))"
    by (simp only: fence_to_end_def)
  have "0x60 \<in> set (drop 2 (t @ 0x60 # 0x60 # 0x60 # w))"
  proof (cases t)
    case Nil
    then show ?thesis by simp
  next
    case (Cons x t')
    then show ?thesis by (cases t') simp_all
  qed
  then have "0x60 \<in> set (drop 3 (c # t @ fence @ w))"
    by (simp add: fence_eq)
  then show False using a backtick_not_ws by (auto simp: list_all_iff)
qed

lemma replace_trailing_fence_end:
  "list_all isWhiteSpace w \<Longrightarrow> replace_trailing_fence (t @ fence @ w) = t"
proof (induction t)
  case Nil
  then have "fence_to_end (0x60 # [0x60, 0x60] @ w)"
    using fence_to_end_fence [of w] by (simp add: fence_eq)
  then show ?case by (simp add: fence_eq)
next
  case (Cons c t)
  then show ?case using not_fence_to_end_before [of w c t] by simp
qed

lemma fence_to_end_suffix:
  "fence_to_end s \<Longrightarrow> \<exists>w. list_all isWhiteSpace w \<and> s = fence @ w"
  by (auto simp: fence_to_end_def prefix_def fence_eq)

lemma replace_trailing_fence_id:
  "\<not> (\<exists>w. list_all isWhiteSpace w \<and> suffix (fence @ w) s) \<Longrightarrow> replace_trailing_fence s = s"
proof (induction s)
  case Nil
  then show ?case by simp
next
  case (Cons c cs)
  have "\<not> fence_to_end (c # cs)"
  proof
    assume "fence_to_end (c # cs)"
    then obtain w where "list_all isWhiteSpace w" "c # cs = fence @ w"
      using fence_to_end_suffix by blast
    then show False using Cons.prems by (metis suffix_order.refl)
  qed
  moreover have "\<not> (\<exists>w. list_all isWhiteSpace w \<and> suffix (fence @ w) cs)"
    using Cons.prems by (meson suffix_Cons)
  ultimately show ?case using Cons.IH by simp
qed

lemma no_backtick_no_fence:
  "0x60 \<notin> set s \<Longrightarrow> \<not> (\<exists>w. list_all isWhiteSpace w \<and> suffix (fence @ w) s)"
proof
  assume a: "0x60 \<notin> set s" and b: "\<exists>w. list_all isWhiteSpace w \<and> suffix (fence @ w) s"
  from b obtain w where "suffix (fence @ w) s" by blast
  then have "set (fence @ w) \<subseteq> set s" by (rule set_mono_suffix)
  then show False using a by (simp add: fence_eq)
qed

lemma no_fence_by_last:
  assumes "s \<noteq> []" and "last s \<noteq> 0x60" and "\<not> isWhiteSpace (last s)"
  shows "\<not> (\<exists>w. list_all isWhiteSpace w \<and> suffix (fence @ w) s)"
proof
  assume "\<exists>w. list_all isWhiteSpace w \<and> suffix (fence @ w) s"
  then obtain w zs where w: "list_all isWhiteSpace w" and s: "s = zs @ fence @ w"
    by (auto simp: suffix_def)
  show False
  proof (cases "w = []")
    case True
    then have "last s = 0x60" using s by (simp add: fence_eq)
    then show False using assms(2) by simp
  next
    case False
    then have "last s = last w" using s by simp
    moreover have "isWhiteSpace (last w)" using w False by (simp add: list_all_iff)
    ultimately show False using assms(3) by simp
  qed
qed

subsection \<open>The sanitizer on texts of a given shape\<close>

lemma cleanJSON_plain:
  assumes "\<not> sublist fence_json s"
    and "\<not> (\<exists>w. list_all isWhiteSpace w \<and> suffix (fence @ w) s)"
  shows "cleanJSON s = trim s"
  using assms by (simp add: cleanJSON_def replace_fence_json_id replace_trailing_fence_id)

lemma cleanJSON_no_backtick: "0x60 \<notin> set s \<Longrightarrow> cleanJSON s = trim s"
  by (simp add: cleanJSON_plain no_backtick_no_marker no_backtick_no_fence)

lemma cleanJSON_id:
  "0x60 \<notin> set s \<Longrightarrow> \<not> isWhiteSpace (hd s) \<Longrightarrow> \<not> isWhiteSpace (last s) \<Longrightarrow> cleanJSON s = s"
  by (simp add: cleanJSON_no_backtick trim_id)

lemma cleanJSON_fenced:
  assumes w0: "list_all isWhiteSpace w0" and w1: "list_all isWhiteSpace w1"
    and w2: "list_all isWhiteSpace w2" and w3: "list_all isWhiteSpace w3"
    and body: "\<not> sublist fence_json body"
  shows "cleanJSON (w0 @ fence_json @ w1 @ body @ w2 @ fence @ w3) = trim body"
proof -
  let ?Z = "w2 @ fence @ w3"
  let ?X = "body @ ?Z"
  have "0x6E \<notin> set ?Z"
    using all_ws_no_n [OF w2] all_ws_no_n [OF w3] by (simp add: fence_eq)
  then have "last fence_json \<notin> set ?Z" by (simp add: fence_json_eq)
  moreover have "fence_json \<noteq> []" by (simp add: fence_json_eq)
  ultimately have "\<not> sublist fence_json ?X"
    using body sublist_append_cut by blast
  moreover have "sublist (dropWhile isWhiteSpace ?X) ?X" by (rule sublist_dropWhile)
  ultimately have "\<not> sublist fence_json (dropWhile isWhiteSpace ?X)"
    using sublist_order.order.trans by blast
  then have r2: "replace_fence_json (dropWhile isWhiteSpace ?X) = dropWhile isWhiteSpace ?X"
    by (rule replace_fence_json_id)
  have "replace_fence_json (w0 @ fence_json @ w1 @ ?X) = w0 @ replace_fence_json (fence_json @ w1 @ ?X)"
    using all_ws_no_backtick [OF w0] by (rule replace_fence_json_skip)
  also have "\<dots> = w0 @ dropWhile isWhiteSpace ?X"
    using replace_fence_json_marker [OF w1, of ?X] r2 by simp
  finally have step1: "replace_fence_json (w0 @ fence_json @ w1 @ ?X) = w0 @ dropWhile isWhiteSpace ?X" .
  show ?thesis
  proof (cases "list_all isWhiteSpace body")
    case True
    then have "dropWhile isWhiteSpace ?X = dropWhile isWhiteSpace (fence @ w3)"
      using w2 by (simp add: dropWhile_all_ws)
    also have "\<dots> = fence @ w3" using backtick_not_ws by (simp add: fence_eq)
    finally have "replace_fence_json (w0 @ fence_json @ w1 @ ?X) = w0 @ fence @ w3"
      using step1 by simp
    then have "cleanJSON (w0 @ fence_json @ w1 @ ?X) = trim w0"
      using replace_trailing_fence_end [OF w3, of w0] by (simp add: cleanJSON_def)
    then show ?thesis using trim_all_ws [OF w0] trim_all_ws [OF True] by simp
  next
    case False
    then obtain x where "x \<in> set body" "\<not> isWhiteSpace x" by (auto simp: list_all_iff)
    then have "dropWhile isWhiteSpace ?X = dropWhile isWhiteSpace body @ ?Z"
      by (rule dropWhile_append1)
    then have "replace_fence_json (w0 @ fence_json @ w1 @ ?X)
        = (w0 @ dropWhile isWhiteSpace body @ w2) @ fence @ w3"
      using step1 by simp
    then have "cleanJSON (w0 @ fence_json @ w1 @ ?X) = trim (w0 @ dropWhile isWhiteSpace body @ w2)"
      using replace_trailing_fence_end [OF w3, of "w0 @ dropWhile isWhiteSpace body @ w2"]
      by (simp only: cleanJSON_def)
    also have "\<dots> = trim (dropWhile isWhiteSpace body @ w2)" using w0 by (rule trim_ws_left)
    also have "\<dots> = trim (dropWhile isWhiteSpace body)" using w2 by (rule trim_ws_right)
    also have "\<dots> = trim body" by (rule trim_dropWhile)
    finally show ?thesis .
  qed
qed

lemma cleanJSON_trailing:
  assumes w2: "list_all isWhiteSpace w2" and w3: "list_all isWhiteSpace w3"
    and body: "\<not> sublist fence_json body"
  shows "cleanJSON (body @ w2 @ fence @ w3) = trim body"
proof -
  let ?Z = "w2 @ fence @ w3"
  have "0x6E \<notin> set ?Z"
    using all_ws_no_n [OF w2] all_ws_no_n [OF w3] by (simp add: fence_eq)
  then have "last fence_json \<notin> set ?Z" by (simp add: fence_json_eq)
  moreover have "fence_json \<noteq> []" by (simp add: fence_json_eq)
  ultimately have "\<not> sublist fence_json (body @ ?Z)"
    using body sublist_append_cut by blast
  then have "replace_fence_json (body @ ?Z) = (body @ w2) @ fence @ w3"
    by (simp add: replace_fence_json_id)
  then have "cleanJSON (body @ ?Z) = trim (body @ w2)"
    using replace_trailing_fence_end [OF w3, of "body @ w2"] by (simp only: cleanJSON_def)
  also have "\<dots> = trim body" using w2 by (rule trim_ws_right)
  finally show ?thesis .
qed

lemma cleanJSON_marker_inside:
  assumes u: "0x60 \<notin> set u" and v: "0x60 \<notin> set v" and w: "list_all isWhiteSpace w"
  shows "cleanJSON (u @ fence_json @ w @ v) = trim (u @ dropWhile isWhiteSpace v)"
proof -
  have nv: "0x60 \<notin> set (dropWhile isWhiteSpace v)"
    using v set_dropWhileD by fastforce
  have "replace_fence_json (u @ fence_json @ w @ v) = u @ replace_fence_json (fence_json @ w @ v)"
    using u by (rule replace_fence_json_skip)
  also have "\<dots> = u @ replace_fence_json (dropWhile isWhiteSpace v)"
    using w by (simp only: replace_fence_json_marker)
  also have "\<dots> = u @ dropWhile isWhiteSpace v"
    using nv by (simp add: replace_fence_json_id no_backtick_no_marker)
  finally have "replace_fence_json (u @ fence_json @ w @ v) = u @ dropWhile isWhiteSpace v" .
  moreover have "0x60 \<notin> set (u @ dropWhile isWhiteSpace v)" using u nv by simp
  ultimately show ?thesis
    by (simp add: cleanJSON_def replace_trailing_fence_id no_backtick_no_fence)
qed

subsection \<open>The paths through generateDraft\<close>

lemma select_request_openai:
  "OPENAI_API_KEY rt = Some k \<Longrightarrow> k \<noteq> [] \<Longrightarrow>
   select_request rt raw =
     Inr \<lparr>baseURL = lit ''https://api.openai.com'', apiKey = k,
          model = lit ''gpt-3.5-turbo'', messages = messages_for raw\<rparr>"
  by (simp add: select_request_def useOpenAI_def present_def openai_request_def)

lemma select_request_deepseek:
  "\<not> present (OPENAI_API_KEY rt) \<Longrightarrow> DEEPSEEK_API_KEY rt = Some k \<Longrightarrow> k \<noteq> [] \<Longrightarrow>
   select_request rt raw =
     Inr \<lparr>baseURL = lit ''https://api.deepseek.com'', apiKey = k,
          model = lit ''deepseek-chat'', messages = messages_for raw\<rparr>"
  by (simp add: select_request_def useOpenAI_def useDeepseek_def present_def deepseek_request_def)

lemma select_request_none:
  "\<not> present (OPENAI_API_KEY rt) \<Longrightarrow> \<not> present (DEEPSEEK_API_KEY rt) \<Longrightarrow>
   select_request rt raw = Inl (Error no_keys_message)"
  by (simp add: select_request_def useOpenAI_def useDeepseek_def)

lemma generateDraft_thrown: "try_block rt raw = Inl e \<Longrightarrow> generateDraft rt raw = error_string"
  by (simp add: generateDraft_def)

lemma generateDraft_content:
  "snd (request_rawJSON rt raw) = Inr c \<Longrightarrow>
   generateDraft rt raw = (case from_content rt c of Inl e \<Rightarrow> error_string | Inr d \<Rightarrow> d)"
  by (simp add: generateDraft_def try_block_def)

lemma generateDraft_parsed:
  "snd (request_rawJSON rt raw) = Inr (Some text) \<Longrightarrow> text \<noteq> [] \<Longrightarrow>
   JSON_parse rt (cleanJSON text) = Inr resp \<Longrightarrow>
   generateDraft rt raw = (case format_response rt resp of Inl e \<Rightarrow> error_string | Inr d \<Rightarrow> d)"
  by (simp add: generateDraft_content from_content_def)

lemma generateDraft_parse_error:
  "snd (request_rawJSON rt raw) = Inr (Some text) \<Longrightarrow> text \<noteq> [] \<Longrightarrow>
   JSON_parse rt (cleanJSON text) = Inl e \<Longrightarrow> try_block rt raw = Inl e"
  by (simp add: try_block_def from_content_def)



lemma format_response_empty:
  "contentArray resp = Inr (Val (JArr [])) \<Longrightarrow>
   format_response rt resp = Inr (header rt @ no_items_sentence)"
  by (simp add: format_response_def)

lemma format_response_items:
  "contentArray resp = Inr (Val (JArr items)) \<Longrightarrow> items \<noteq> [] \<Longrightarrow> map_items items = Inr blocks \<Longrightarrow>
   format_response rt resp = Inr (header rt @ join [0xA, 0xA] blocks)"
  by (simp add: format_response_def)

lemma map_items_blocks:
  "list_all2 (\<lambda>item (d, l). item_description item = Inr d \<and> item_link item = Inr l) items dls \<Longrightarrow>
   map_items items = Inr (map (\<lambda>(d, l). block d l) dls)"
  by (induction items dls rule: list_all2_induct) (auto simp: render_item_def)

lemma contentArray_primary:
  "map_of kvs (lit ''interestingTweetsOrStories'') = Some (JArr items) \<Longrightarrow>
   contentArray (JObj kvs) = Inr (Val (JArr items))"
  by (simp add: contentArray_def js_or_def)

lemma generateDraft_empty:
  "snd (request_rawJSON rt raw) = Inr (Some text) \<Longrightarrow> text \<noteq> [] \<Longrightarrow>
   JSON_parse rt (cleanJSON text) = Inr resp \<Longrightarrow> contentArray resp = Inr (Val (JArr [])) \<Longrightarrow>
   generateDraft rt raw = header rt @ no_items_sentence"
  by (simp add: generateDraft_parsed format_response_empty)

lemma generateDraft_items:
  assumes "snd (request_rawJSON rt raw) = Inr (Some answer)" and "answer \<noteq> []"
    and "JSON_parse rt (cleanJSON answer) = Inr resp"
    and "contentArray resp = Inr (Val (JArr items))" and "items \<noteq> []"
    and "list_all2 (\<lambda>item (d, l). item_description item = Inr d \<and> item_link item = Inr l) items dls"
  shows "generateDraft rt raw = header rt @ join [0xA, 0xA] (map (\<lambda>(d, l). block d l) dls)"
proof -
  have "map_items items = Inr (map (\<lambda>(d, l). block d l) dls)"
    using assms(6) by (rule map_items_blocks)
  then have "format_response rt resp = Inr (header rt @ join [0xA, 0xA] (map (\<lambda>(d, l). block d l) dls))"
    using assms(4,5) by (rule format_response_items [rotated 2])
  then show ?thesis
    using assms(1-3) by (simp add: generateDraft_parsed)
qed

lemma join_concat: "join sep (x # xs) = x @ concat (map (\<lambda>y. sep @ y) xs)"
  by (induction xs arbitrary: x) simp_all

lemma generateDraft_blocks:
  assumes "snd (request_rawJSON rt raw) = Inr (Some answer)" and "answer \<noteq> []"
    and "JSON_parse rt (cleanJSON answer) = Inr resp"
    and "contentArray resp = Inr (Val (JArr items))"
    and "list_all2 (\<lambda>item (d, l). item_description item = Inr d \<and> item_link item = Inr l) items (p # ps)"
  shows "generateDraft rt raw =
     header rt @ (case p of (d, l) \<Rightarrow> block d l) @
     concat (map (\<lambda>(d, l). [0xA, 0xA] @ block d l) ps)"
proof -
  have "items \<noteq> []" using assms(5) by auto
  then have "generateDraft rt raw = header rt @ join [0xA, 0xA] (map (\<lambda>(d, l). block d l) (p # ps))"
    using generateDraft_items [OF assms(1-4) _ assms(5)] by blast
  also have "join [0xA, 0xA] (map (\<lambda>(d, l). block d l) (p # ps)) =
      (case p of (d, l) \<Rightarrow> block d l) @ concat (map (\<lambda>(d, l). [0xA, 0xA] @ block d l) ps)"
    by (simp add: join_concat comp_def case_prod_unfold)
  finally show ?thesis .
qed

text \<open>The result depends on the provider only through its answer to the selected request.\<close>

lemma select_request_chat_update:
  "select_request (rt\<lparr>chat_completions_create := f\<rparr>) raw = select_request rt raw"
  by (simp add: select_request_def useOpenAI_def useDeepseek_def openai_request_def
      deepseek_request_def)

lemma header_chat_update: "header (rt\<lparr>chat_completions_create := f\<rparr>) = header rt"
  by (simp add: header_def)

lemma format_response_chat_update:
  "format_response (rt\<lparr>chat_completions_create := f\<rparr>) resp = format_response rt resp"
  unfolding format_response_def header_chat_update ..

lemma from_content_chat_update:
  "from_content (rt\<lparr>chat_completions_create := f\<rparr>) c = from_content rt c"
  unfolding from_content_def format_response_chat_update header_chat_update
  by (cases c) simp_all

lemma try_block_at_request:
  "select_request rt raw = Inr req \<Longrightarrow>
   try_block rt raw =
     (case chat_completions_create rt req of
        Inl e \<Rightarrow> Inl e
      | Inr [] \<Rightarrow> Inl TypeError
      | Inr (c # cs) \<Rightarrow> from_content rt c)"
  by (simp add: try_block_def request_rawJSON_def first_content_def split: sum.splits list.splits)

lemma generateDraft_only_selected:
  assumes "select_request rt raw = Inr req" and "f req = chat_completions_create rt req"
  shows "generateDraft (rt\<lparr>chat_completions_create := f\<rparr>) raw = generateDraft rt raw"
proof -
  have "select_request (rt\<lparr>chat_completions_create := f\<rparr>) raw = Inr req"
    using assms(1) by (simp only: select_request_chat_update)
  then have "try_block (rt\<lparr>chat_completions_create := f\<rparr>) raw = try_block rt raw"
    using assms by (simp add: try_block_at_request from_content_chat_update
        split: sum.splits list.splits)
  then show ?thesis by (simp add: generateDraft_def)
qed

text \<open>
  Items outside the data model: reading a field of null throws, which ends the call in
  the \<open>catch\<close> clause; an object with neither field renders as \<open>undefined\<close>.
\<close>

lemma render_item_null: "render_item JNull = Inl TypeError"
  by (simp add: render_item_def item_description_def js_or_def)

lemma item_without_fields:
  "map_of kvs (lit ''description'') = None \<Longrightarrow> map_of kvs (lit ''headline'') = None \<Longrightarrow>
   item_description (JObj kvs) = Inr (lit ''undefined'')"
  by (simp add: item_description_def js_or_def)

lemma map_items_null: "JNull \<in> set items \<Longrightarrow> \<exists>e. map_items items = Inl e"
proof (induction items)
  case Nil
  then show ?case by simp
next
  case (Cons item items)
  show ?case
  proof (cases "item = JNull")
    case True
    then show ?thesis by (simp add: render_item_null)
  next
    case False
    then have "JNull \<in> set items" using Cons.prems by auto
    then obtain e where "map_items items = Inl e" using Cons.IH by blast
    then show ?thesis by (simp split: sum.splits)
  qed
qed

lemma generateDraft_null_item:
  assumes "snd (request_rawJSON rt raw) = Inr (Some answer)" and "answer \<noteq> []"
    and "JSON_parse rt (cleanJSON answer) = Inr resp"
    and "contentArray resp = Inr (Val (JArr items))" and "JNull \<in> set items"
  shows "generateDraft rt raw = error_string"
proof -
  obtain e where "map_items items = Inl e" using map_items_null [OF assms(5)] by blast
  moreover have "items \<noteq> []" using assms(5) by auto
  ultimately have "format_response rt resp = Inl e"
    using assms(4) by (simp add: format_response_def)
  then show ?thesis using assms(1-3) by (simp add: generateDraft_parsed)
qed



text \<open>Every draft that is not the error string is the header followed by a non-empty body.\<close>

lemma map_items_nonempty:
  "map_items items = Inr bs \<Longrightarrow> length bs = length items \<and> (\<forall>b \<in> set bs. b \<noteq> [])"
  by (induction items arbitrary: bs) (auto simp: render_item_def block_def split: sum.splits)

lemma join_nonempty: "bs \<noteq> [] \<Longrightarrow> hd bs \<noteq> [] \<Longrightarrow> join sep bs \<noteq> []"
  by (induction sep bs rule: join.induct) auto

lemma format_response_prefix:
  assumes "format_response rt resp = Inr d"
  shows "\<exists>body. body \<noteq> [] \<and> d = header rt @ body"
proof -
  from assms obtain arr z where arr: "contentArray resp = Inr arr" and z: "length_is_zero arr = Inr z"
    by (auto simp: format_response_def split: sum.splits)
  show ?thesis
  proof (cases z)
    case True
    then have "d = header rt @ no_items_sentence"
      using assms arr z by (simp add: format_response_def)
    moreover have "no_items_sentence \<noteq> []" by (simp add: no_items_sentence_def)
    ultimately show ?thesis by blast
  next
    case False
    then obtain blocks where b: "array_map arr = Inr blocks" and d: "d = header rt @ join [0xA, 0xA] blocks"
      using assms arr z by (auto simp: format_response_def split: sum.splits)
    from b obtain items where items: "arr = Val (JArr items)" "map_items items = Inr blocks"
      by (cases arr rule: array_map.cases) auto
    then have "items \<noteq> []" using z False by auto
    then have "blocks \<noteq> []"
      using map_items_nonempty [OF items(2)] by auto
    moreover from this have "hd blocks \<noteq> []"
      using map_items_nonempty [OF items(2)] hd_in_set by blast
    ultimately have "blocks \<noteq> []" "hd blocks \<noteq> []" by blast+
    then have "join [0xA, 0xA] blocks \<noteq> []" by (rule join_nonempty)
    then show ?thesis using d by blast
  qed
qed

lemma from_content_prefix:
  assumes "from_content rt c = Inr d"
  shows "\<exists>body. body \<noteq> [] \<and> d = header rt @ body"
proof (cases "c = None \<or> c = Some []")
  case True
  then have "d = header rt @ lit ''No output.''"
    using assms by (auto simp: from_content_def)
  then show ?thesis by (metis lit_eq_Nil list.distinct(1))
next
  case False
  then obtain resp where "format_response rt resp = Inr d"
    using assms by (auto simp: from_content_def split: option.splits sum.splits if_splits)
  then show ?thesis by (rule format_response_prefix)
qed

subsection \<open>The examples\<close>

lemma openai_answers_rawJSON: "snd (request_rawJSON (openai_answers c tbl) raw) = Inr c"
  by (simp add: request_rawJSON_def select_request_def useOpenAI_def present_def
      openai_answers_def first_content_def)

lemma two_items_clean: "cleanJSON two_items_text = two_items_text"
  by (rule cleanJSON_id) (simp_all add: two_items_text_def lit_def isWhiteSpace_def)


lemma empty_text_clean: "cleanJSON empty_text = empty_text"
  by (rule cleanJSON_id) (simp_all add: empty_text_def lit_def isWhiteSpace_def)

lemma truncated_text_clean: "cleanJSON truncated_text = truncated_text"
  by (rule cleanJSON_id) (simp_all add: truncated_text_def lit_def isWhiteSpace_def)

lemma shadowed_text_clean: "cleanJSON shadowed_text = shadowed_text"
  by (rule cleanJSON_id) (simp_all add: shadowed_text_def lit_def isWhiteSpace_def)

lemma three_items_clean: "cleanJSON three_items_text = three_items_text"
  by (rule cleanJSON_id) (simp_all add: three_items_text_def lit_def isWhiteSpace_def)

lemma null_item_text_clean: "cleanJSON null_item_text = null_item_text"
  by (rule cleanJSON_id) (simp_all add: null_item_text_def lit_def isWhiteSpace_def)


lemma fenced_empty_text_clean: "cleanJSON fenced_empty_text = empty_text"
proof -
  have "0x60 \<notin> set empty_text" by (simp add: empty_text_def lit_def)
  then have "\<not> sublist fence_json empty_text" by (rule no_backtick_no_marker)
  then have "cleanJSON ([] @ fence_json @ [0xA] @ empty_text @ [0xA] @ fence @ []) = trim empty_text"
    by (intro cleanJSON_fenced) (simp_all add: isWhiteSpace_def)
  moreover have "trim empty_text = empty_text"
    by (rule trim_id) (simp_all add: empty_text_def lit_def isWhiteSpace_def)
  ultimately show ?thesis
    by (simp add: fenced_empty_text_def fence_json_def fence_def)
qed

section \<open>Properties\<close>

subsection \<open>Layout of the draft\<close>

text \<open>
  Claim C1 speaks of every parsed response whose selected collection is not empty. The
  response \<open>{"stories":[null]}\<close> is parsed, and its selected collection has one item;
  reading \<open>description\<close> from that item throws, and the result is the error string
  instead of a header with a block.
\<close>

theorem null_item_counterexample:
  "contentArray null_item_response = Inr (Val (JArr [JNull])) \<and>
   generateDraft (openai_answers (Some null_item_text) [(null_item_text, null_item_response)])
     (lit ''scraped'') = lit ''Error generating draft post.''"
proof -
  let ?rt = "openai_answers (Some null_item_text) [(null_item_text, null_item_response)]"
  have h1: "snd (request_rawJSON ?rt (lit ''scraped'')) = Inr (Some null_item_text)"
    by (rule openai_answers_rawJSON)
  have h2: "null_item_text \<noteq> []" by (simp add: null_item_text_def)
  have h3: "JSON_parse ?rt (cleanJSON null_item_text) = Inr null_item_response"
    by (simp add: null_item_text_clean openai_answers_def parse_table_def)
  have h4: "contentArray null_item_response = Inr (Val (JArr [JNull]))"
    by (simp add: contentArray_def js_or_def null_item_response_def)
  have "generateDraft ?rt (lit ''scraped'') = error_string"
    using generateDraft_null_item [OF h1 h2 h3 h4] by simp
  then show ?thesis using h4 by (simp add: error_string_def)
qed

text \<open>
  Claim C1, as amended. Let the provider's answer be parsed successfully and let the
  selected collection be an array \<open>items\<close>. If the array is not empty and the two
  interpolations of every item evaluate, to the description \<open>d\<close> and the link \<open>l\<close>
  of that item, then \<open>generateDraft\<close> returns the header, the block of the first item,
  and for every further item, in the order of the array, two newlines and its block. A
  block is the bullet U+2022, a space, the description, a newline, two spaces, the link.
  If some item of the array is null, the result is the error string.
\<close>

theorem draft_layout:
  assumes "snd (request_rawJSON rt raw) = Inr (Some answer)" and "answer \<noteq> []"
    and "JSON_parse rt (cleanJSON answer) = Inr resp"
    and "contentArray resp = Inr (Val (JArr items))"
  shows "(list_all2 (\<lambda>item (d, l). item_description item = Inr d \<and> item_link item = Inr l)
            items (p # ps) \<longrightarrow>
          generateDraft rt raw =
            ([0xD83D, 0xDE80] @ lit '' AI and LLM Trends on X for '' @ toLocaleDateString rt @ [0xA, 0xA]) @ (case p of (d, l) \<Rightarrow> [0x2022, 0x20] @ d @ [0xA, 0x20, 0x20] @ l) @
            concat (map (\<lambda>(d, l). [0xA, 0xA, 0x2022, 0x20] @ d @ [0xA, 0x20, 0x20] @ l) ps)) \<and>
         (JNull \<in> set items \<longrightarrow> generateDraft rt raw = lit ''Error generating draft post.'')"
proof (intro conjI impI)
  assume "list_all2 (\<lambda>item (d, l). item_description item = Inr d \<and> item_link item = Inr l)
            items (p # ps)"
  then show "generateDraft rt raw =
            ([0xD83D, 0xDE80] @ lit '' AI and LLM Trends on X for '' @ toLocaleDateString rt @ [0xA, 0xA]) @ (case p of (d, l) \<Rightarrow> [0x2022, 0x20] @ d @ [0xA, 0x20, 0x20] @ l) @
            concat (map (\<lambda>(d, l). [0xA, 0xA, 0x2022, 0x20] @ d @ [0xA, 0x20, 0x20] @ l) ps)"
    using generateDraft_blocks [OF assms] by (simp add: block_def bullet_def case_prod_unfold header_def)
next
  assume "JNull \<in> set items"
  then show "generateDraft rt raw = lit ''Error generating draft post.''"
    using generateDraft_null_item [OF assms] by (simp add: error_string_def)
qed

text \<open>
  The two items B/http://y and C/http://z of the specification's example, in this
  order; three items, of which the first uses the fallback names; and the array that
  holds null.
\<close>

theorem draft_layout_witness:
  "generateDraft (openai_answers (Some two_items_text) [(two_items_text, two_items)]) (lit ''scraped'') =
     [0xD83D, 0xDE80] @ lit '' AI and LLM Trends on X for 11/3/2026'' @ [0xA, 0xA] @
     [0x2022] @ lit '' B'' @ [0xA] @ lit ''  http://y'' @ [0xA, 0xA] @
     [0x2022] @ lit '' C'' @ [0xA] @ lit ''  http://z'' \<and>
   generateDraft (openai_answers (Some three_items_text) [(three_items_text, three_items)]) (lit ''scraped'') =
     [0xD83D, 0xDE80] @ lit '' AI and LLM Trends on X for 11/3/2026'' @ [0xA, 0xA] @
     [0x2022] @ lit '' A'' @ [0xA] @ lit ''  http://x'' @ [0xA, 0xA] @
     [0x2022] @ lit '' B'' @ [0xA] @ lit ''  http://y'' @ [0xA, 0xA] @
     [0x2022] @ lit '' C'' @ [0xA] @ lit ''  http://z'' \<and>
   generateDraft (openai_answers (Some null_item_text) [(null_item_text, null_item_response)])
     (lit ''scraped'') = lit ''Error generating draft post.''"
proof -
  let ?rt2 = "openai_answers (Some two_items_text) [(two_items_text, two_items)]"
  let ?rt3 = "openai_answers (Some three_items_text) [(three_items_text, three_items)]"
  let ?rt0 = "openai_answers (Some null_item_text) [(null_item_text, null_item_response)]"
  let ?A = "JObj [(lit ''headline'', JStr (lit ''A'')), (lit ''link'', JStr (lit ''http://x''))]"
  let ?B = "JObj [(lit ''description'', JStr (lit ''B'')),
                        (lit ''story_or_tweet_link'', JStr (lit ''http://y''))]"
  let ?C = "JObj [(lit ''description'', JStr (lit ''C'')),
                        (lit ''story_or_tweet_link'', JStr (lit ''http://z''))]"
  have a1: "snd (request_rawJSON ?rt2 (lit ''scraped'')) = Inr (Some two_items_text)"
    by (rule openai_answers_rawJSON)
  have a2: "two_items_text \<noteq> []" by (simp add: two_items_text_def)
  have a3: "JSON_parse ?rt2 (cleanJSON two_items_text) = Inr two_items"
    by (simp add: two_items_clean openai_answers_def parse_table_def)
  have a4: "contentArray two_items = Inr (Val (JArr [?B, ?C]))"
    by (simp add: contentArray_def js_or_def two_items_def)
  have a5: "list_all2 (\<lambda>item (d, l). item_description item = Inr d \<and> item_link item = Inr l)
      [?B, ?C] [(lit ''B'', lit ''http://y''), (lit ''C'', lit ''http://z'')]"
    by (simp add: item_description_def item_link_def js_or_def)
  have a: "generateDraft ?rt2 (lit ''scraped'') =
     [0xD83D, 0xDE80] @ lit '' AI and LLM Trends on X for 11/3/2026'' @ [0xA, 0xA] @
     [0x2022] @ lit '' B'' @ [0xA] @ lit ''  http://y'' @ [0xA, 0xA] @
     [0x2022] @ lit '' C'' @ [0xA] @ lit ''  http://z''"
    using draft_layout [OF a1 a2 a3 a4, where p = "(lit ''B'', lit ''http://y'')"
        and ps = "[(lit ''C'', lit ''http://z'')]"] a5
    by (simp add: header_def openai_answers_def lit_def)
  have b1: "snd (request_rawJSON ?rt3 (lit ''scraped'')) = Inr (Some three_items_text)"
    by (rule openai_answers_rawJSON)
  have b2: "three_items_text \<noteq> []" by (simp add: three_items_text_def)
  have b3: "JSON_parse ?rt3 (cleanJSON three_items_text) = Inr three_items"
    by (simp add: three_items_clean openai_answers_def parse_table_def)
  have b4: "contentArray three_items = Inr (Val (JArr [?A, ?B, ?C]))"
    by (simp add: contentArray_def js_or_def three_items_def)
  have b5: "list_all2 (\<lambda>item (d, l). item_description item = Inr d \<and> item_link item = Inr l)
      [?A, ?B, ?C] [(lit ''A'', lit ''http://x''), (lit ''B'', lit ''http://y''), (lit ''C'', lit ''http://z'')]"
    by (simp add: item_description_def item_link_def js_or_def)
  have b: "generateDraft ?rt3 (lit ''scraped'') =
     [0xD83D, 0xDE80] @ lit '' AI and LLM Trends on X for 11/3/2026'' @ [0xA, 0xA] @
     [0x2022] @ lit '' A'' @ [0xA] @ lit ''  http://x'' @ [0xA, 0xA] @
     [0x2022] @ lit '' B'' @ [0xA] @ lit ''  http://y'' @ [0xA, 0xA] @
     [0x2022] @ lit '' C'' @ [0xA] @ lit ''  http://z''"
    using draft_layout [OF b1 b2 b3 b4, where p = "(lit ''A'', lit ''http://x'')"
        and ps = "[(lit ''B'', lit ''http://y''), (lit ''C'', lit ''http://z'')]"] b5
    by (simp add: header_def openai_answers_def lit_def)
  have c1: "snd (request_rawJSON ?rt0 (lit ''scraped'')) = Inr (Some null_item_text)"
    by (rule openai_answers_rawJSON)
  have c2: "null_item_text \<noteq> []" by (simp add: null_item_text_def)
  have c3: "JSON_parse ?rt0 (cleanJSON null_item_text) = Inr null_item_response"
    by (simp add: null_item_text_clean openai_answers_def parse_table_def)
  have c4: "contentArray null_item_response = Inr (Val (JArr [JNull]))"
    by (simp add: contentArray_def js_or_def null_item_response_def)
  have c: "generateDraft ?rt0 (lit ''scraped'') = lit ''Error generating draft post.''"
    using draft_layout [OF c1 c2 c3 c4] by simp
  show ?thesis using a b c by blast
qed

subsection \<open>Description and link of an item\<close>



subsection \<open>Provider selection\<close>

text \<open>
  Claim C3. When the OpenAI key is set, whether or not the Deepseek key is set, the one
  request of the call goes to the OpenAI endpoint with that key, and the outcome of the
  \<open>try\<close> block is computed from the provider's answer to that request: an exception
  of the request leaves the block, an answer without choices throws, and otherwise the
  content of the first choice is formatted. No other answer of the provider matters: the
  result is the same for every provider that answers this request alike. When only the
  Deepseek key is set, the same holds for the request to the Deepseek endpoint. The two
  flags are never both true, and a call sends at most one request.
\<close>

theorem provider_selection:
  "(\<forall>k. OPENAI_API_KEY rt = Some k \<and> k \<noteq> [] \<longrightarrow>
      (let req = \<lparr>baseURL = lit ''https://api.openai.com'', apiKey = k,
                  model = lit ''gpt-3.5-turbo'', messages = messages_for raw\<rparr>
       in requests_sent rt raw = [req] \<and>
          try_block rt raw =
            (case chat_completions_create rt req of
               Inl e \<Rightarrow> Inl e
             | Inr [] \<Rightarrow> Inl TypeError
             | Inr (c # cs) \<Rightarrow> from_content rt c) \<and>
          (\<forall>f. f req = chat_completions_create rt req \<longrightarrow>
             generateDraft (rt\<lparr>chat_completions_create := f\<rparr>) raw = generateDraft rt raw))) \<and>
   (\<forall>k. \<not> present (OPENAI_API_KEY rt) \<and> DEEPSEEK_API_KEY rt = Some k \<and> k \<noteq> [] \<longrightarrow>
      (let req = \<lparr>baseURL = lit ''https://api.deepseek.com'', apiKey = k,
                  model = lit ''deepseek-chat'', messages = messages_for raw\<rparr>
       in requests_sent rt raw = [req] \<and>
          try_block rt raw =
            (case chat_completions_create rt req of
               Inl e \<Rightarrow> Inl e
             | Inr [] \<Rightarrow> Inl TypeError
             | Inr (c # cs) \<Rightarrow> from_content rt c) \<and>
          (\<forall>f. f req = chat_completions_create rt req \<longrightarrow>
             generateDraft (rt\<lparr>chat_completions_create := f\<rparr>) raw = generateDraft rt raw))) \<and>
   \<not> (useOpenAI rt \<and> useDeepseek rt) \<and>
   length (requests_sent rt raw) \<le> 1"
proof (intro conjI allI impI)
  fix k assume "OPENAI_API_KEY rt = Some k \<and> k \<noteq> []"
  then have s: "select_request rt raw =
      Inr \<lparr>baseURL = lit ''https://api.openai.com'', apiKey = k,
           model = lit ''gpt-3.5-turbo'', messages = messages_for raw\<rparr>"
    by (simp add: select_request_openai)
  show "let req = \<lparr>baseURL = lit ''https://api.openai.com'', apiKey = k,
                  model = lit ''gpt-3.5-turbo'', messages = messages_for raw\<rparr>
       in requests_sent rt raw = [req] \<and>
          try_block rt raw =
            (case chat_completions_create rt req of
               Inl e \<Rightarrow> Inl e
             | Inr [] \<Rightarrow> Inl TypeError
             | Inr (c # cs) \<Rightarrow> from_content rt c) \<and>
          (\<forall>f. f req = chat_completions_create rt req \<longrightarrow>
             generateDraft (rt\<lparr>chat_completions_create := f\<rparr>) raw = generateDraft rt raw)"
    unfolding Let_def
    using try_block_at_request [OF s] generateDraft_only_selected [OF s]
    by (simp add: requests_sent_def request_rawJSON_def s)
next
  fix k assume "\<not> present (OPENAI_API_KEY rt) \<and> DEEPSEEK_API_KEY rt = Some k \<and> k \<noteq> []"
  then have s: "select_request rt raw =
      Inr \<lparr>baseURL = lit ''https://api.deepseek.com'', apiKey = k,
           model = lit ''deepseek-chat'', messages = messages_for raw\<rparr>"
    by (simp add: select_request_deepseek)
  show "let req = \<lparr>baseURL = lit ''https://api.deepseek.com'', apiKey = k,
                  model = lit ''deepseek-chat'', messages = messages_for raw\<rparr>
       in requests_sent rt raw = [req] \<and>
          try_block rt raw =
            (case chat_completions_create rt req of
               Inl e \<Rightarrow> Inl e
             | Inr [] \<Rightarrow> Inl TypeError
             | Inr (c # cs) \<Rightarrow> from_content rt c) \<and>
          (\<forall>f. f req = chat_completions_create rt req \<longrightarrow>
             generateDraft (rt\<lparr>chat_completions_create := f\<rparr>) raw = generateDraft rt raw)"
    unfolding Let_def
    using try_block_at_request [OF s] generateDraft_only_selected [OF s]
    by (simp add: requests_sent_def request_rawJSON_def s)
next
  show "\<not> (useOpenAI rt \<and> useDeepseek rt)" by (simp add: useDeepseek_def)
next
  show "length (requests_sent rt raw) \<le> 1"
    by (simp add: requests_sent_def request_rawJSON_def split: sum.splits)
qed

text \<open>
  In \<open>both_keys\<close> only the OpenAI endpoint answers. With both keys set the request
  goes to OpenAI and the draft is made from its answer; with the OpenAI key unset the
  request goes to Deepseek, which fails, and the result is the error string.
\<close>

theorem provider_selection_witness:
  "requests_sent both_keys (lit ''scraped'') =
     [\<lparr>baseURL = lit ''https://api.openai.com'', apiKey = lit ''sk-1'',
       model = lit ''gpt-3.5-turbo'', messages = messages_for (lit ''scraped'')\<rparr>] \<and>
   generateDraft both_keys (lit ''scraped'') =
     [0xD83D, 0xDE80] @ lit '' AI and LLM Trends on X for 11/3/2026'' @ [0xA, 0xA] @ lit ''No output.'' \<and>
   requests_sent (both_keys\<lparr>OPENAI_API_KEY := None\<rparr>) (lit ''scraped'') =
     [\<lparr>baseURL = lit ''https://api.deepseek.com'', apiKey = lit ''ds-2'',
       model = lit ''deepseek-chat'', messages = messages_for (lit ''scraped'')\<rparr>] \<and>
   generateDraft (both_keys\<lparr>OPENAI_API_KEY := None\<rparr>) (lit ''scraped'') =
     lit ''Error generating draft post.'' \<and>
   requests_sent (both_keys\<lparr>OPENAI_API_KEY := Some []\<rparr>) (lit ''scraped'') =
     [\<lparr>baseURL = lit ''https://api.deepseek.com'', apiKey = lit ''ds-2'',
       model = lit ''deepseek-chat'', messages = messages_for (lit ''scraped'')\<rparr>]"
proof -
  let ?deep = "both_keys\<lparr>OPENAI_API_KEY := None\<rparr>"
  let ?empty = "both_keys\<lparr>OPENAI_API_KEY := Some []\<rparr>"
  have o: "requests_sent both_keys (lit ''scraped'') =
     [\<lparr>baseURL = lit ''https://api.openai.com'', apiKey = lit ''sk-1'',
       model = lit ''gpt-3.5-turbo'', messages = messages_for (lit ''scraped'')\<rparr>] \<and>
     try_block both_keys (lit ''scraped'') = from_content both_keys None"
    using provider_selection [of both_keys "lit ''scraped''"]
    by (simp add: both_keys_def Let_def)
  then have og: "generateDraft both_keys (lit ''scraped'') =
     [0xD83D, 0xDE80] @ lit '' AI and LLM Trends on X for 11/3/2026'' @ [0xA, 0xA] @ lit ''No output.''"
    by (simp add: generateDraft_def from_content_def header_def) (simp add: both_keys_def lit_def)
  have d: "requests_sent ?deep (lit ''scraped'') =
     [\<lparr>baseURL = lit ''https://api.deepseek.com'', apiKey = lit ''ds-2'',
       model = lit ''deepseek-chat'', messages = messages_for (lit ''scraped'')\<rparr>] \<and>
     try_block ?deep (lit ''scraped'') = Inl APIError"
    using provider_selection [of ?deep "lit ''scraped''"]
    by (simp add: both_keys_def Let_def present_def)
  then have dg: "generateDraft ?deep (lit ''scraped'') = lit ''Error generating draft post.''"
    by (simp add: generateDraft_def error_string_def)
  have e: "requests_sent ?empty (lit ''scraped'') =
     [\<lparr>baseURL = lit ''https://api.deepseek.com'', apiKey = lit ''ds-2'',
       model = lit ''deepseek-chat'', messages = messages_for (lit ''scraped'')\<rparr>]"
    using provider_selection [of ?empty "lit ''scraped''"]
    by (simp add: both_keys_def Let_def present_def)
  show ?thesis using o og d dg e by blast
qed

subsection \<open>Errors\<close>

text \<open>
  Claim C4. Each kind of error leaves the \<open>try\<close> block as an exception and is turned
  by the one \<open>catch\<close> clause into the same string: the missing key, a failure of the
  request, and a failure of \<open>JSON.parse\<close>. In particular, with neither key set the result
  is that string. Whatever the exception is, the result is the error string alone.
\<close>

theorem errors_become_error_string:
  "(\<not> present (OPENAI_API_KEY rt) \<and> \<not> present (DEEPSEEK_API_KEY rt) \<longrightarrow>
      try_block rt raw = Inl (Error no_keys_message) \<and> generateDraft rt raw = error_string) \<and>
   (\<forall>req e. select_request rt raw = Inr req \<and> chat_completions_create rt req = Inl e \<longrightarrow>
      try_block rt raw = Inl e \<and> generateDraft rt raw = error_string) \<and>
   (\<forall>text e. snd (request_rawJSON rt raw) = Inr (Some text) \<and> text \<noteq> [] \<and>
        JSON_parse rt (cleanJSON text) = Inl e \<longrightarrow>
      try_block rt raw = Inl e \<and> generateDraft rt raw = error_string) \<and>
   (\<forall>e. try_block rt raw = Inl e \<longrightarrow> generateDraft rt raw = error_string)"
proof (intro conjI allI impI)
  assume "\<not> present (OPENAI_API_KEY rt) \<and> \<not> present (DEEPSEEK_API_KEY rt)"
  then show "try_block rt raw = Inl (Error no_keys_message)"
    by (simp add: try_block_def request_rawJSON_def select_request_none)
  then show "generateDraft rt raw = error_string" by (rule generateDraft_thrown)
next
  fix req e assume "select_request rt raw = Inr req \<and> chat_completions_create rt req = Inl e"
  then show "try_block rt raw = Inl e"
    by (simp add: try_block_def request_rawJSON_def)
  then show "generateDraft rt raw = error_string" by (rule generateDraft_thrown)
next
  fix answer e
  assume "snd (request_rawJSON rt raw) = Inr (Some answer) \<and> answer \<noteq> [] \<and>
        JSON_parse rt (cleanJSON answer) = Inl e"
  then show "try_block rt raw = Inl e" by (simp add: generateDraft_parse_error)
  then show "generateDraft rt raw = error_string" by (rule generateDraft_thrown)
next
  fix e assume "try_block rt raw = Inl e"
  then show "generateDraft rt raw = error_string" by (rule generateDraft_thrown)
qed

theorem errors_become_error_string_witness:
  "generateDraft (both_keys\<lparr>OPENAI_API_KEY := None, DEEPSEEK_API_KEY := None\<rparr>) (lit ''scraped'')
     = lit ''Error generating draft post.'' \<and>
   generateDraft (both_keys\<lparr>OPENAI_API_KEY := None\<rparr>) (lit ''scraped'')
     = lit ''Error generating draft post.'' \<and>
   generateDraft (openai_answers (Some truncated_text) [(empty_text, empty_response)]) (lit ''scraped'')
     = lit ''Error generating draft post.''"
proof -
  let ?none = "both_keys\<lparr>OPENAI_API_KEY := None, DEEPSEEK_API_KEY := None\<rparr>"
  let ?deep = "both_keys\<lparr>OPENAI_API_KEY := None\<rparr>"
  let ?rt = "openai_answers (Some truncated_text) [(empty_text, empty_response)]"
  have a: "generateDraft ?none (lit ''scraped'') = error_string"
    using errors_become_error_string [of ?none "lit ''scraped''"]
    by (simp add: both_keys_def present_def)
  have "select_request ?deep (lit ''scraped'') = Inr (deepseek_request ?deep (lit ''scraped''))"
    by (simp add: select_request_def useOpenAI_def useDeepseek_def present_def both_keys_def)
  moreover have "chat_completions_create ?deep (deepseek_request ?deep (lit ''scraped'')) = Inl APIError"
    by (simp add: both_keys_def deepseek_request_def)
  ultimately have b: "generateDraft ?deep (lit ''scraped'') = error_string"
    using errors_become_error_string [of ?deep "lit ''scraped''"] by blast
  have ne: "truncated_text \<noteq> empty_text"
    by (simp add: truncated_text_def empty_text_def)
  have "JSON_parse ?rt (cleanJSON truncated_text) = Inl SyntaxError"
    by (simp add: truncated_text_clean openai_answers_def parse_table_def ne)
  moreover have "snd (request_rawJSON ?rt (lit ''scraped'')) = Inr (Some truncated_text)"
    by (rule openai_answers_rawJSON)
  moreover have "truncated_text \<noteq> []" by (simp add: truncated_text_def)
  ultimately have c: "generateDraft ?rt (lit ''scraped'') = error_string"
    using errors_become_error_string [of ?rt "lit ''scraped''"] by blast
  show ?thesis using a b c by (simp add: error_string_def)
qed

subsection \<open>The sanitizer\<close>

text \<open>
  Claim C5 says that the marker is removed only at the very start of the text, that its
  language tag is optional and that the interior of the text is never altered. The
  pattern of line 84 is global and unanchored and requires the tag \<open>json\<close>: a marker in
  the interior of a text is removed, although the text neither starts nor ends with a
  fence, and a leading fence without the tag stays.
\<close>

theorem sanitizer_counterexample:
  "cleanJSON (lit ''{\"a\":\"```json b\"}'') = lit ''{\"a\":\"b\"}'' \<and>
   cleanJSON (lit ''{\"a\":\"```json b\"}'') \<noteq> trim (lit ''{\"a\":\"```json b\"}'') \<and>
   cleanJSON (lit ''```'' @ [0xA] @ lit ''{}'' @ [0xA] @ lit ''```'') = lit ''```'' @ [0xA] @ lit ''{}''"
proof -
  have "cleanJSON (lit ''{\"a\":\"'' @ fence_json @ [0x20] @ lit ''b\"}'')
      = trim (lit ''{\"a\":\"'' @ dropWhile isWhiteSpace (lit ''b\"}''))"
    by (rule cleanJSON_marker_inside) (simp_all add: lit_def isWhiteSpace_def)
  also have "\<dots> = trim (lit ''{\"a\":\"b\"}'')"
    by (simp add: lit_def isWhiteSpace_def)
  also have "\<dots> = lit ''{\"a\":\"b\"}''"
    by (rule trim_id) (simp_all add: lit_def isWhiteSpace_def)
  finally have a: "cleanJSON (lit ''{\"a\":\"```json b\"}'') = lit ''{\"a\":\"b\"}''"
    by (simp add: lit_def fence_json_def)
  have "trim (lit ''{\"a\":\"```json b\"}'') = lit ''{\"a\":\"```json b\"}''"
    by (rule trim_id) (simp_all add: lit_def isWhiteSpace_def)
  then have b: "cleanJSON (lit ''{\"a\":\"```json b\"}'') \<noteq> trim (lit ''{\"a\":\"```json b\"}'')"
    using a by simp
  have "\<not> sublist fence_json (lit ''```'' @ [0xA] @ lit ''{}'')"
  proof
    assume "sublist fence_json (lit ''```'' @ [0xA] @ lit ''{}'')"
    then have "set fence_json \<subseteq> set (lit ''```'' @ [0xA] @ lit ''{}'')"
      by (rule set_mono_sublist)
    then show False by (simp add: fence_json_eq lit_def)
  qed
  then have "cleanJSON ((lit ''```'' @ [0xA] @ lit ''{}'') @ [0xA] @ fence @ [])
      = trim (lit ''```'' @ [0xA] @ lit ''{}'')"
    by (intro cleanJSON_trailing) (simp_all add: isWhiteSpace_def)
  also have "\<dots> = lit ''```'' @ [0xA] @ lit ''{}''"
    by (rule trim_id) (simp_all add: lit_def isWhiteSpace_def)
  finally have c: "cleanJSON (lit ''```'' @ [0xA] @ lit ''{}'' @ [0xA] @ lit ''```'')
      = lit ''```'' @ [0xA] @ lit ''{}''"
    by (simp add: fence_def)
  show ?thesis using a b c by blast
qed

text \<open>
  Claim C5, as amended. The sanitizer is the first replacement, then the second, then
  trimming. The first replacement removes the marker \<open>```json\<close> wherever it occurs:
  the text before the first marker is kept, the marker and the whitespace after it are
  dropped, and the rest of the text is treated in the same way; a text without the
  marker is unchanged. The second replacement removes three backticks followed only by
  whitespace up to the end of the text, and changes no other text. Trimming removes the
  whitespace at both ends. So a text of the form: whitespace, marker, whitespace, a body
  free of the marker, whitespace, three backticks, whitespace, is reduced to the trimmed
  body, and so is such a text without the leading marker; a text without the marker that
  does not end in three backticks and whitespace is only trimmed.
\<close>

theorem sanitizer_behaviour:
  "cleanJSON raw0 = trim (replace_trailing_fence (replace_fence_json raw0)) \<and>
   (isWhiteSpace ch \<longleftrightarrow>
      ch \<in> {0x9, 0xA, 0xB, 0xC, 0xD, 0x20, 0xA0, 0x1680, 0x2028, 0x2029, 0x202F, 0x205F,
             0x3000, 0xFEFF} \<or> 0x2000 \<le> ch \<and> ch \<le> 0x200A) \<and>
   (\<not> sublist fence_json before \<longrightarrow>
      replace_fence_json (before @ fence_json @ rest) =
        before @ replace_fence_json (dropWhile isWhiteSpace rest)) \<and>
   (\<not> sublist fence_json plain \<longrightarrow> replace_fence_json plain = plain) \<and>
   (list_all isWhiteSpace tail_ws \<longrightarrow> replace_trailing_fence (kept @ fence @ tail_ws) = kept) \<and>
   (\<not> (\<exists>w. list_all isWhiteSpace w \<and> suffix (fence @ w) unfenced) \<longrightarrow>
      replace_trailing_fence unfenced = unfenced) \<and>
   (list_all isWhiteSpace lead \<and> list_all isWhiteSpace trail \<and>
    (core = [] \<or> \<not> isWhiteSpace (hd core) \<and> \<not> isWhiteSpace (last core)) \<longrightarrow>
      trim (lead @ core @ trail) = core) \<and>
   (list_all isWhiteSpace w0 \<and> list_all isWhiteSpace w1 \<and> list_all isWhiteSpace w2 \<and>
    list_all isWhiteSpace w3 \<and> \<not> sublist fence_json body \<longrightarrow>
      cleanJSON (w0 @ fence_json @ w1 @ body @ w2 @ fence @ w3) = trim body) \<and>
   (list_all isWhiteSpace w2 \<and> list_all isWhiteSpace w3 \<and> \<not> sublist fence_json body \<longrightarrow>
      cleanJSON (body @ w2 @ fence @ w3) = trim body) \<and>
   (0x60 \<notin> set u \<and> list_all isWhiteSpace w \<longrightarrow>
      replace_fence_json (u @ fence_json @ w @ t) =
        u @ replace_fence_json (dropWhile isWhiteSpace t)) \<and>
   (0x60 \<notin> set u \<and> 0x60 \<notin> set v \<and> list_all isWhiteSpace w \<longrightarrow>
      cleanJSON (u @ fence_json @ w @ v) = trim (u @ dropWhile isWhiteSpace v)) \<and>
   (\<not> sublist fence_json s \<and> \<not> (\<exists>w. list_all isWhiteSpace w \<and> suffix (fence @ w) s) \<longrightarrow>
      cleanJSON s = trim s)"
  by (simp add: cleanJSON_fenced cleanJSON_trailing cleanJSON_marker_inside cleanJSON_plain
      replace_fence_json_skip replace_fence_json_marker no_marker_before replace_fence_json_id
      replace_trailing_fence_end replace_trailing_fence_id trim_core)
    (auto simp: cleanJSON_def isWhiteSpace_def)

theorem sanitizer_behaviour_witness:
  "cleanJSON (lit '' ```json'' @ [0xA, 0xA] @ lit ''{\"k\": 1}'' @ [0xA] @ lit ''``` '') = lit ''{\"k\": 1}'' \<and>
   cleanJSON (lit ''{\"k\": 1}'' @ [0xA] @ lit ''```'' @ [0xA]) = lit ''{\"k\": 1}'' \<and>
   cleanJSON (lit ''x ```json  y'') = lit ''x y'' \<and>
   cleanJSON (lit '' {\"k\": 1} '') = lit ''{\"k\": 1}'' \<and>
   cleanJSON (lit ''a`b ```json c'') = lit ''a`b c'' \<and>
   replace_fence_json (lit ''```json ```json x'') = lit ''x'' \<and>
   isWhiteSpace 0xA0 \<and> \<not> isWhiteSpace 0x60"
proof -
  have g: "isWhiteSpace 0xA0" "\<not> isWhiteSpace 0x60"
    using sanitizer_behaviour [where ch = "0xA0", THEN conjunct2, THEN conjunct1]
      sanitizer_behaviour [where ch = "0x60", THEN conjunct2, THEN conjunct1]
    by simp_all
  have ws: "list_all isWhiteSpace [0x20]" "list_all isWhiteSpace [0xA, 0xA]"
    "list_all isWhiteSpace [0xA]" "list_all isWhiteSpace [0x20, 0x20]" "list_all isWhiteSpace []"
    by (simp_all add: isWhiteSpace_def)
  have nb: "0x60 \<notin> set (lit ''{\"k\": 1}'')" "0x60 \<notin> set (lit ''x '')" "0x60 \<notin> set (lit ''y'')"
    "0x60 \<notin> set (lit '' {\"k\": 1} '')"
    by (simp_all add: lit_def)
  have body: "\<not> sublist fence_json (lit ''{\"k\": 1}'')"
    using nb(1) by (rule no_backtick_no_marker)
  have t: "trim (lit ''{\"k\": 1}'') = lit ''{\"k\": 1}''"
    by (rule trim_id) (simp_all add: lit_def isWhiteSpace_def)
  have "cleanJSON ([0x20] @ fence_json @ [0xA, 0xA] @ lit ''{\"k\": 1}'' @ [0xA] @ fence @ [0x20])
      = trim (lit ''{\"k\": 1}'')"
    using sanitizer_behaviour [where ?w0.0 = "[0x20]" and ?w1.0 = "[0xA, 0xA]" and ?w2.0 = "[0xA]"
        and ?w3.0 = "[0x20]" and body = "lit ''{\"k\": 1}''"] body ws
    by blast
  then have a: "cleanJSON (lit '' ```json'' @ [0xA, 0xA] @ lit ''{\"k\": 1}'' @ [0xA] @ lit ''``` '')
      = lit ''{\"k\": 1}''"
    by (simp add: t) (simp add: lit_def fence_json_def fence_def)
  have "cleanJSON (lit ''{\"k\": 1}'' @ [0xA] @ fence @ [0xA]) = trim (lit ''{\"k\": 1}'')"
    using sanitizer_behaviour [where ?w2.0 = "[0xA]" and ?w3.0 = "[0xA]" and body = "lit ''{\"k\": 1}''"]
      body ws
    by blast
  then have b: "cleanJSON (lit ''{\"k\": 1}'' @ [0xA] @ lit ''```'' @ [0xA]) = lit ''{\"k\": 1}''"
    by (simp add: t fence_def)
  have "cleanJSON (lit ''x '' @ fence_json @ [0x20, 0x20] @ lit ''y'')
      = trim (lit ''x '' @ dropWhile isWhiteSpace (lit ''y''))"
    using sanitizer_behaviour [where u = "lit ''x ''" and v = "lit ''y''" and w = "[0x20, 0x20]"]
      nb ws
    by blast
  also have "\<dots> = lit ''x y''"
    by (simp add: trim_def lit_def isWhiteSpace_def)
  finally have c: "cleanJSON (lit ''x ```json  y'') = lit ''x y''"
    by (simp add: lit_def fence_json_def)
  have "cleanJSON (lit '' {\"k\": 1} '') = trim (lit '' {\"k\": 1} '')"
    using sanitizer_behaviour [where s = "lit '' {\"k\": 1} ''", THEN conjunct2, THEN conjunct2]
      no_backtick_no_marker [OF nb(4)] no_backtick_no_fence [OF nb(4)]
    by blast
  also have "\<dots> = lit ''{\"k\": 1}''"
    by (simp add: trim_def lit_def isWhiteSpace_def)
  finally have d: "cleanJSON (lit '' {\"k\": 1} '') = lit ''{\"k\": 1}''" .
  have nj: "\<not> sublist fence_json (lit ''a`b '')" "\<not> sublist fence_json (lit ''c'')"
    "\<not> sublist fence_json (lit ''x'')" "\<not> sublist fence_json []"
    by (rule no_j_no_marker, simp add: lit_def)+
  have dw: "dropWhile isWhiteSpace (lit '' c'') = lit ''c''"
    "dropWhile isWhiteSpace (lit '' ```json x'') = fence_json @ lit '' x''"
    "dropWhile isWhiteSpace (lit '' x'') = lit ''x''"
    by (simp_all add: lit_def isWhiteSpace_def fence_json_def)
  have "replace_fence_json (lit ''a`b '' @ fence_json @ lit '' c'') =
      lit ''a`b '' @ replace_fence_json (dropWhile isWhiteSpace (lit '' c''))"
    using sanitizer_behaviour [where before = "lit ''a`b ''" and rest = "lit '' c''", THEN conjunct2, THEN conjunct2] nj(1)
    by blast
  moreover have "replace_fence_json (lit ''c'') = lit ''c''"
    using sanitizer_behaviour [where plain = "lit ''c''", THEN conjunct2, THEN conjunct2] nj(2) by blast
  ultimately have "replace_fence_json (lit ''a`b '' @ fence_json @ lit '' c'') = lit ''a`b '' @ lit ''c''"
    by (simp only: dw)
  then have e1: "replace_fence_json (lit ''a`b ```json c'') = lit ''a`b c''"
    by (simp add: lit_def fence_json_def)
  have "\<not> (\<exists>w. list_all isWhiteSpace w \<and> suffix (fence @ w) (lit ''a`b c''))"
    by (rule no_fence_by_last) (simp_all add: lit_def isWhiteSpace_def)
  then have e2: "replace_trailing_fence (lit ''a`b c'') = lit ''a`b c''"
    using sanitizer_behaviour [where unfenced = "lit ''a`b c''", THEN conjunct2, THEN conjunct2] by blast
  have "\<not> isWhiteSpace (hd (lit ''a`b c'')) \<and> \<not> isWhiteSpace (last (lit ''a`b c''))"
    by (simp add: lit_def isWhiteSpace_def)
  then have "trim ([] @ lit ''a`b c'' @ []) = lit ''a`b c''"
    using sanitizer_behaviour [where lead = "[]" and core = "lit ''a`b c''" and trail = "[]"] ws(5)
    by blast
  then have e3: "trim (lit ''a`b c'') = lit ''a`b c''" by simp
  have "cleanJSON (lit ''a`b ```json c'') =
      trim (replace_trailing_fence (replace_fence_json (lit ''a`b ```json c'')))"
    using sanitizer_behaviour [where ?raw0.0 = "lit ''a`b ```json c''", THEN conjunct1] .
  then have e: "cleanJSON (lit ''a`b ```json c'') = lit ''a`b c''"
    by (simp only: e1 e2 e3)
  have "replace_fence_json ([] @ fence_json @ lit '' ```json x'') =
      [] @ replace_fence_json (dropWhile isWhiteSpace (lit '' ```json x''))"
    using sanitizer_behaviour [where before = "[]" and rest = "lit '' ```json x''"] nj(4)
    by blast
  moreover have "replace_fence_json ([] @ fence_json @ lit '' x'') =
      [] @ replace_fence_json (dropWhile isWhiteSpace (lit '' x''))"
    using sanitizer_behaviour [where before = "[]" and rest = "lit '' x''"] nj(4)
    by blast
  moreover have "replace_fence_json (lit ''x'') = lit ''x''"
    using sanitizer_behaviour [where plain = "lit ''x''", THEN conjunct2, THEN conjunct2] nj(3) by blast
  ultimately have "replace_fence_json (fence_json @ lit '' ```json x'') = lit ''x''"
    by (simp add: dw)
  then have f: "replace_fence_json (lit ''```json ```json x'') = lit ''x''"
    by (simp add: lit_def fence_json_def)
  show ?thesis using a b c d e f g by blast
qed

subsection \<open>Fallback sentences\<close>




subsection \<open>Invalid JSON\<close>

text \<open>
  Claim C7. When the sanitized answer is rejected by \<open>JSON.parse\<close> with a SyntaxError,
  the exception leaves the \<open>try\<close> block and the result is the error string.
\<close>

theorem invalid_json_error_string:
  assumes "snd (request_rawJSON rt raw) = Inr (Some answer)" and "answer \<noteq> []"
    and "JSON_parse rt (cleanJSON answer) = Inl SyntaxError"
  shows "try_block rt raw = Inl SyntaxError \<and>
         generateDraft rt raw = lit ''Error generating draft post.''"
  using assms generateDraft_parse_error [OF assms]
  by (simp add: generateDraft_def error_string_def)

text \<open>An answer that breaks off after the opening bracket of the array.\<close>

theorem invalid_json_error_string_witness:
  "JSON_parse (openai_answers (Some truncated_text) [(empty_text, empty_response)])
     (cleanJSON truncated_text) = Inl SyntaxError \<and>
   generateDraft (openai_answers (Some truncated_text) [(empty_text, empty_response)]) (lit ''scraped'')
     = lit ''Error generating draft post.''"
proof -
  let ?rt = "openai_answers (Some truncated_text) [(empty_text, empty_response)]"
  have h1: "snd (request_rawJSON ?rt (lit ''scraped'')) = Inr (Some truncated_text)"
    by (rule openai_answers_rawJSON)
  have h2: "truncated_text \<noteq> []" by (simp add: truncated_text_def)
  have ne: "truncated_text \<noteq> empty_text"
    by (simp add: truncated_text_def empty_text_def)
  have h3: "JSON_parse ?rt (cleanJSON truncated_text) = Inl SyntaxError"
    by (simp add: truncated_text_clean openai_answers_def parse_table_def ne)
  show ?thesis
    using invalid_json_error_string [OF h1 h2 h3] h3 by simp
qed

subsection \<open>Fenced and bare answers\<close>

text \<open>
  Claim C8. The fenced text \<open>```json\n{"interestingTweetsOrStories":[]}\n```\<close> and
  the bare text \<open>{"interestingTweetsOrStories":[]}\<close> are sanitized to the same text, so
  \<open>JSON.parse\<close> gives the same result for both.
\<close>

theorem fenced_parse_equals_bare:
  "cleanJSON fenced_empty_text = cleanJSON empty_text \<and>
   JSON_parse rt (cleanJSON fenced_empty_text) = JSON_parse rt (cleanJSON empty_text)"
  by (simp add: fenced_empty_text_clean empty_text_clean)

theorem fenced_parse_equals_bare_witness:
  "JSON_parse (openai_answers (Some fenced_empty_text) [(empty_text, empty_response)])
     (cleanJSON fenced_empty_text) = Inr empty_response \<and>
   JSON_parse (openai_answers (Some fenced_empty_text) [(empty_text, empty_response)])
     (cleanJSON empty_text) = Inr empty_response"
proof -
  let ?rt = "openai_answers (Some fenced_empty_text) [(empty_text, empty_response)]"
  have "JSON_parse ?rt (cleanJSON empty_text) = Inr empty_response"
    by (simp add: empty_text_clean openai_answers_def parse_table_def)
  then show ?thesis
    using fenced_parse_equals_bare [of ?rt] by simp
qed

subsection \<open>A string on every path\<close>

text \<open>
  Claim C9. Every call returns a string: either an exception left the \<open>try\<close> block and
  the result is the error string, or the block returned and the result is the header
  followed by a non-empty body.
\<close>

theorem always_a_string:
  "(\<exists>e. try_block rt raw = Inl e \<and> generateDraft rt raw = error_string) \<or>
   (\<exists>body. body \<noteq> [] \<and> try_block rt raw = Inr (header rt @ body) \<and>
      generateDraft rt raw = header rt @ body)"
proof (cases "try_block rt raw")
  case (Inl e)
  then show ?thesis by (simp add: generateDraft_def)
next
  case (Inr d)
  then obtain c where "from_content rt c = Inr d"
    by (auto simp: try_block_def split: sum.splits)
  then obtain body where "body \<noteq> []" "d = header rt @ body"
    using from_content_prefix by blast
  then show ?thesis using Inr by (simp add: generateDraft_def)
qed

theorem always_a_string_witness:
  "generateDraft both_keys (lit ''scraped'') =
     [0xD83D, 0xDE80] @ lit '' AI and LLM Trends on X for 11/3/2026'' @ [0xA, 0xA] @ lit ''No output.'' \<and>
   generateDraft (both_keys\<lparr>OPENAI_API_KEY := None, DEEPSEEK_API_KEY := None\<rparr>) (lit ''scraped'') =
     lit ''Error generating draft post.''"
proof -
  let ?none = "both_keys\<lparr>OPENAI_API_KEY := None, DEEPSEEK_API_KEY := None\<rparr>"
  have "try_block both_keys (lit ''scraped'') = Inr (header both_keys @ lit ''No output.'')"
    by (simp add: try_block_def request_rawJSON_def select_request_def useOpenAI_def present_def
        both_keys_def openai_request_def first_content_def from_content_def)
  then have a: "generateDraft both_keys (lit ''scraped'') = header both_keys @ lit ''No output.''"
    using always_a_string [of both_keys "lit ''scraped''"] by auto
  have "try_block ?none (lit ''scraped'') = Inl (Error no_keys_message)"
    by (simp add: try_block_def request_rawJSON_def select_request_def useOpenAI_def useDeepseek_def
        present_def both_keys_def)
  then have b: "generateDraft ?none (lit ''scraped'') = error_string"
    using always_a_string [of ?none "lit ''scraped''"] by auto
  show ?thesis
    using a b by (simp add: header_def both_keys_def error_string_def lit_def)
qed

subsection \<open>An empty primary collection\<close>

text \<open>
  Claim C10. When the parsed response is an object whose key
  \<open>interestingTweetsOrStories\<close> is bound to the empty array, that array is the selected
  collection and the result is the header followed by the sentence about no trending
  stories, whatever the key \<open>stories\<close> holds.
\<close>

theorem empty_primary_hides_stories:
  assumes "snd (request_rawJSON rt raw) = Inr (Some answer)" and "answer \<noteq> []"
    and "JSON_parse rt (cleanJSON answer) = Inr (JObj kvs)"
    and "map_of kvs (lit ''interestingTweetsOrStories'') = Some (JArr [])"
  shows "contentArray (JObj kvs) = Inr (Val (JArr [])) \<and>
         generateDraft rt raw = header rt @ lit ''No trending stories or tweets found at this time.''"
proof -
  have c: "contentArray (JObj kvs) = Inr (Val (JArr []))"
    using assms(4) by (rule contentArray_primary)
  then show ?thesis
    using generateDraft_empty [OF assms(1-3) c] by (simp add: no_items_sentence_def)
qed

text \<open>Here \<open>stories\<close> holds one item, which is not rendered.\<close>

theorem empty_primary_hides_stories_witness:
  "map_of [(lit ''interestingTweetsOrStories'', JArr []),
           (lit ''stories'',
            JArr [JObj [(lit ''headline'', JStr (lit ''A'')), (lit ''link'', JStr (lit ''http://x''))]])]
     (lit ''stories'') =
     Some (JArr [JObj [(lit ''headline'', JStr (lit ''A'')), (lit ''link'', JStr (lit ''http://x''))]]) \<and>
   generateDraft (openai_answers (Some shadowed_text) [(shadowed_text, shadowed_response)]) (lit ''scraped'') =
     [0xD83D, 0xDE80] @ lit '' AI and LLM Trends on X for 11/3/2026'' @ [0xA, 0xA] @
     lit ''No trending stories or tweets found at this time.''"
proof -
  let ?rt = "openai_answers (Some shadowed_text) [(shadowed_text, shadowed_response)]"
  have h1: "snd (request_rawJSON ?rt (lit ''scraped'')) = Inr (Some shadowed_text)"
    by (rule openai_answers_rawJSON)
  have h2: "shadowed_text \<noteq> []" by (simp add: shadowed_text_def)
  have h3: "JSON_parse ?rt (cleanJSON shadowed_text) =
      Inr (JObj [(lit ''interestingTweetsOrStories'', JArr []),
           (lit ''stories'',
            JArr [JObj [(lit ''headline'', JStr (lit ''A'')), (lit ''link'', JStr (lit ''http://x''))]])])"
    by (simp add: shadowed_text_clean openai_answers_def parse_table_def shadowed_response_def)
  have h4: "map_of [(lit ''interestingTweetsOrStories'', JArr []),
           (lit ''stories'',
            JArr [JObj [(lit ''headline'', JStr (lit ''A'')), (lit ''link'', JStr (lit ''http://x''))]])]
      (lit ''interestingTweetsOrStories'') = Some (JArr [])"
    by simp
  show ?thesis
    using empty_primary_hides_stories [OF h1 h2 h3 h4]
    by (simp add: header_def openai_answers_def lit_def)
qed

end
